theory Spec2Isabelle
  imports Complex_Main "HOL-Library.Char_ord" "HOL-Library.List_Lexorder" "HOL-Library.Multiset"
begin

section \<open>JavaScript values used by the dashboard\<close>

text \<open>
  Numbers. A number other than \<open>NaN\<close> is an infinity or a finite value, held as its
  exact value; \<open>None\<close> stands for \<open>NaN\<close>. Years, months and counts are integers,
  on which the arithmetic of the program is exact. The two zeros are not told apart:
  the program never divides by a measure.

  Strings are lists of code units; \<open>undefined\<close> is \<open>None\<close> where a value can be
  undefined.
\<close>

datatype xnum = NegInf | Fin rat | PosInf

instantiation xnum :: "{zero, linorder}"
begin

definition zero_xnum :: xnum where
  "0 = Fin 0"

definition less_eq_xnum :: "xnum \<Rightarrow> xnum \<Rightarrow> bool" where
  "x \<le> y =
     (case x of
        NegInf \<Rightarrow> True
      | Fin a \<Rightarrow> (case y of NegInf \<Rightarrow> False | Fin b \<Rightarrow> a \<le> b | PosInf \<Rightarrow> True)
      | PosInf \<Rightarrow> (case y of PosInf \<Rightarrow> True | _ \<Rightarrow> False))"

definition less_xnum :: "xnum \<Rightarrow> xnum \<Rightarrow> bool" where
  "x < y = (x \<le> y \<and> \<not> y \<le> (x :: xnum))"

instance
proof
  fix x y z :: xnum
  show "(x < y) = (x \<le> y \<and> \<not> y \<le> x)"
    by (simp add: less_xnum_def)
  show "x \<le> x"
    by (cases x) (simp_all add: less_eq_xnum_def)
  show "x \<le> y \<Longrightarrow> y \<le> z \<Longrightarrow> x \<le> z"
    by (cases x; cases y; cases z) (simp_all add: less_eq_xnum_def)
  show "x \<le> y \<Longrightarrow> y \<le> x \<Longrightarrow> x = y"
    by (cases x; cases y) (simp_all add: less_eq_xnum_def)
  show "x \<le> y \<or> y \<le> x"
    by (cases x; cases y) (auto simp: less_eq_xnum_def)
qed

end

text \<open>
  Arithmetic on finite numbers rounds its exact result to a double, or to an infinity
  when the result is too large. The rounding is a parameter \<open>fl\<close> of the model, like
  the other built-ins: it maps the exact result to the number the engine returns.
  Infinities absorb finite numbers, and opposite infinities give \<open>NaN\<close>.
\<close>

fun x_add :: "(rat \<Rightarrow> xnum) \<Rightarrow> xnum \<Rightarrow> xnum \<Rightarrow> xnum option" where
  "x_add fl (Fin x) (Fin y) = Some (fl (x + y))"
| "x_add fl PosInf NegInf = None"
| "x_add fl NegInf PosInf = None"
| "x_add fl PosInf y = Some PosInf"
| "x_add fl x PosInf = Some PosInf"
| "x_add fl NegInf y = Some NegInf"
| "x_add fl x NegInf = Some NegInf"

fun x_sub :: "(rat \<Rightarrow> xnum) \<Rightarrow> xnum \<Rightarrow> xnum \<Rightarrow> xnum option" where
  "x_sub fl (Fin x) (Fin y) = Some (fl (x - y))"
| "x_sub fl PosInf PosInf = None"
| "x_sub fl NegInf NegInf = None"
| "x_sub fl PosInf y = Some PosInf"
| "x_sub fl x NegInf = Some PosInf"
| "x_sub fl NegInf y = Some NegInf"
| "x_sub fl x PosInf = Some NegInf"

text \<open>\<open>a + b\<close> and \<open>a - b\<close> on numbers: \<open>NaN\<close> propagates.\<close>

definition js_plus :: "(rat \<Rightarrow> xnum) \<Rightarrow> xnum option \<Rightarrow> xnum option \<Rightarrow> xnum option" where
  "js_plus fl a b = (case (a, b) of (Some x, Some y) \<Rightarrow> x_add fl x y | _ \<Rightarrow> None)"

definition js_sub :: "(rat \<Rightarrow> xnum) \<Rightarrow> xnum option \<Rightarrow> xnum option \<Rightarrow> xnum option" where
  "js_sub fl a b = (case (a, b) of (Some x, Some y) \<Rightarrow> x_sub fl x y | _ \<Rightarrow> None)"

text \<open>
  \<open>a / c\<close> for a finite positive divisor \<open>c\<close> (a count of records, or a million).
\<close>

definition js_div :: "(rat \<Rightarrow> xnum) \<Rightarrow> xnum option \<Rightarrow> rat \<Rightarrow> xnum option" where
  "js_div fl a c =
     (case a of
        None \<Rightarrow> None
      | Some NegInf \<Rightarrow> Some NegInf
      | Some (Fin x) \<Rightarrow> Some (fl (x / c))
      | Some PosInf \<Rightarrow> Some PosInf)"

text \<open>\<open>x || 0\<close> on a number: \<open>NaN\<close> and \<open>0\<close> are falsy, every other number is kept.\<close>

definition orZero :: "xnum option \<Rightarrow> xnum" where
  "orZero x = (case x of None \<Rightarrow> 0 | Some v \<Rightarrow> (if v = 0 then 0 else v))"

text \<open>Truthiness of a string: only the empty string is falsy.\<close>

definition truthy :: "string \<Rightarrow> bool" where
  "truthy s = (s \<noteq> [])"

text \<open>
  A \<open>Date\<close> object is either the invalid date or a valid instant: its time value in
  milliseconds, with the calendar year and the month index (0 to 11) of that instant in
  the local time zone.
\<close>

datatype jsdate = InvalidDate | ValidDate int int int

fun getTime :: "jsdate \<Rightarrow> int option" where
  "getTime InvalidDate = None"
| "getTime (ValidDate t y m) = Some t"

fun getFullYear :: "jsdate \<Rightarrow> int option" where
  "getFullYear InvalidDate = None"
| "getFullYear (ValidDate t y m) = Some y"

fun getMonth :: "jsdate \<Rightarrow> int option" where
  "getMonth InvalidDate = None"
| "getMonth (ValidDate t y m) = Some m"

definition isNaN :: "'a option \<Rightarrow> bool" where
  "isNaN x = (x = None)"

text \<open>Number to string, for integers: decimal digits, a minus sign, or \<open>NaN\<close>.\<close>

fun decimal :: "nat \<Rightarrow> string" where
  "decimal n = (if n < 10 then [''0123456789'' ! n]
                else decimal (n div 10) @ [''0123456789'' ! (n mod 10)])"

declare decimal.simps [simp del]

definition toString :: "int option \<Rightarrow> string" where
  "toString x = (case x of None \<Rightarrow> ''NaN''
                 | Some i \<Rightarrow> (if i < 0 then CHR ''-'' # decimal (nat (- i)) else decimal (nat i)))"

text \<open>\<open>s.padStart(n, '0')\<close>.\<close>

definition padStart :: "nat \<Rightarrow> char \<Rightarrow> string \<Rightarrow> string" where
  "padStart n c s = replicate (n - length s) c @ s"

section \<open>Record normalizer (hooks/useDisasterData.js)\<close>

text \<open>
  A raw row as the CSV reader delivers it: every field of the header is a string, the
  empty string when the cell is missing. (A column that the file does not have at all
  reads as \<open>undefined\<close>, which the hook treats like the empty string: it is falsy,
  it is not a date, and \<open>+undefined || 0\<close> is \<open>0\<close>.)
\<close>

record raw_row =
  csv_date :: string
  csv_country :: string
  csv_disaster_type :: string
  csv_severity_index :: string
  csv_casualties :: string
  csv_economic_loss_usd :: string
  csv_response_time_hours :: string
  csv_aid_amount_usd :: string
  csv_response_efficiency_score :: string
  csv_recovery_days :: string
  csv_latitude :: string
  csv_longitude :: string

record event =
  date :: jsdate
  country :: string
  disaster_type :: string
  severity_index :: xnum
  casualties :: xnum
  economic_loss_usd :: xnum
  response_time_hours :: xnum
  aid_amount_usd :: xnum
  response_efficiency_score :: xnum
  recovery_days :: xnum
  latitude :: xnum
  longitude :: xnum
  year :: "int option"
  month :: "int option"
  yearMonth :: string

text \<open>
  The two built-ins the hook calls are parameters of the model: \<open>newDate\<close> is
  \<open>new Date(string)\<close> (its parsing of anything but the ISO format is left to the
  engine, and the local calendar fields depend on the time zone), \<open>toNumber\<close> is the
  unary plus on a string (\<open>None\<close> when the string is not a numeric literal; the
  literal \<open>Infinity\<close> and a literal too large for a double give an infinity).
\<close>

definition parseRow :: "(string \<Rightarrow> jsdate) \<Rightarrow> (string \<Rightarrow> xnum option) \<Rightarrow> raw_row \<Rightarrow> event" where
  "parseRow newDate toNumber d =
     (let dateStr = csv_date d;
          parsedDate = newDate dateStr
      in \<lparr> date = parsedDate,
           country = csv_country d,
           disaster_type = csv_disaster_type d,
           severity_index = orZero (toNumber (csv_severity_index d)),
           casualties = orZero (toNumber (csv_casualties d)),
           economic_loss_usd = orZero (toNumber (csv_economic_loss_usd d)),
           response_time_hours = orZero (toNumber (csv_response_time_hours d)),
           aid_amount_usd = orZero (toNumber (csv_aid_amount_usd d)),
           response_efficiency_score = orZero (toNumber (csv_response_efficiency_score d)),
           recovery_days = orZero (toNumber (csv_recovery_days d)),
           latitude = orZero (toNumber (csv_latitude d)),
           longitude = orZero (toNumber (csv_longitude d)),
           year = getFullYear parsedDate,
           month = map_option (\<lambda>m. m + 1) (getMonth parsedDate),
           yearMonth = toString (getFullYear parsedDate) @ ''-'' @
             padStart 2 (CHR ''0'') (toString (map_option (\<lambda>m. m + 1) (getMonth parsedDate))) \<rparr>)"

definition parsedData :: "(string \<Rightarrow> jsdate) \<Rightarrow> (string \<Rightarrow> xnum option) \<Rightarrow> raw_row list \<Rightarrow> event list" where
  "parsedData newDate toNumber rawData = map (parseRow newDate toNumber) rawData"

definition validData :: "event list \<Rightarrow> event list" where
  "validData parsed =
     filter (\<lambda>d. \<not> isNaN (getTime (date d)) \<and> truthy (country d) \<and> truthy (disaster_type d)) parsed"

text \<open>
  The state the hook returns once the load has settled. The CSV reader either delivers
  the rows (\<open>Inr\<close>) or fails with a message (\<open>Inl\<close>).
\<close>

record hook_state =
  data :: "event list"
  loading :: bool
  error :: "string option"

definition useDisasterData ::
  "(string \<Rightarrow> jsdate) \<Rightarrow> (string \<Rightarrow> xnum option) \<Rightarrow> string + raw_row list \<Rightarrow> hook_state" where
  "useDisasterData newDate toNumber csv =
     (case csv of
        Inr rawData \<Rightarrow>
          \<lparr> data = validData (parsedData newDate toNumber rawData), loading = False, error = None \<rparr>
      | Inl message \<Rightarrow> \<lparr> data = [], loading = False, error = Some message \<rparr>)"

section \<open>Filter state (components/Dashboard.js)\<close>

record dashboard_state =
  yearRange :: "int option \<times> int option"
  selectedType :: string
  selectedCountry :: string
  rankingMetric :: string
  scatterYAxis :: string

definition initial_state :: dashboard_state where
  "initial_state =
     \<lparr> yearRange = (Some 2018, Some 2024), selectedType = ''All'', selectedCountry = ''All'',
       rankingMetric = ''response_time_hours'', scatterYAxis = ''casualties'' \<rparr>"

text \<open>\<open>a <= b\<close> and \<open>a >= b\<close> on numbers: false as soon as an operand is \<open>NaN\<close>.\<close>

definition js_le :: "int option \<Rightarrow> int option \<Rightarrow> bool" where
  "js_le a b = (case (a, b) of (Some x, Some y) \<Rightarrow> x \<le> y | _ \<Rightarrow> False)"

definition js_ge :: "int option \<Rightarrow> int option \<Rightarrow> bool" where
  "js_ge a b = (case (a, b) of (Some x, Some y) \<Rightarrow> y \<le> x | _ \<Rightarrow> False)"

text \<open>\<open>Math.min\<close> and \<open>Math.max\<close> of two numbers: \<open>NaN\<close> if an operand is.\<close>

definition js_min :: "int option \<Rightarrow> int option \<Rightarrow> int option" where
  "js_min a b = (case (a, b) of (Some x, Some y) \<Rightarrow> Some (min x y) | _ \<Rightarrow> None)"

definition js_max :: "int option \<Rightarrow> int option \<Rightarrow> int option" where
  "js_max a b = (case (a, b) of (Some x, Some y) \<Rightarrow> Some (max x y) | _ \<Rightarrow> None)"

text \<open>
  \<open>[...new Set(xs)]\<close>: the distinct elements of \<open>xs\<close> in the order of their first
  occurrence.
\<close>

definition js_Set :: "'a list \<Rightarrow> 'a list" where
  "js_Set xs = fold (\<lambda>x s. if x \<in> set s then s else s @ [x]) xs []"

text \<open>
  \<open>Array.prototype.sort()\<close> without a comparator orders the elements by their strings,
  code unit by code unit; on an array of strings that is \<^const>\<open>sort\<close> for the
  lexicographic order of \<^typ>\<open>string\<close>.
\<close>

definition uniqueTypes :: "event list \<Rightarrow> string list" where
  "uniqueTypes ds =
     (if length ds = 0 then []
      else sort (''All'' # js_Set (map disaster_type ds)))"

definition uniqueCountries :: "event list \<Rightarrow> string list" where
  "uniqueCountries ds =
     (if length ds = 0 then []
      else (let countries = sort (js_Set (map country ds)) in ''All'' # countries))"

text \<open>
  \<open>Math.min(...years)\<close> passes every year as an argument of one call and folds
  \<^const>\<open>js_min\<close> over the arguments. A call takes only so many arguments: beyond
  the limit of the engine, which depends on the engine and on the room on its stack and
  is a parameter \<open>argLimit\<close> of the model, the call throws a \<open>RangeError\<close>. The
  guard on \<open>data.length\<close> returns before the call when there is no argument, so the
  case of the empty list is the guard.
\<close>

datatype js_error = RangeError

definition yearExtent :: "nat \<Rightarrow> event list \<Rightarrow> js_error + (int option \<times> int option)" where
  "yearExtent argLimit ds =
     (case map year ds of
        [] \<Rightarrow> Inr (Some 2018, Some 2024)
      | y # years \<Rightarrow>
          if argLimit < length (y # years) then Inl RangeError
          else Inr (fold js_min years y, fold js_max years y))"

definition filteredData :: "event list \<Rightarrow> dashboard_state \<Rightarrow> event list" where
  "filteredData ds st =
     filter (\<lambda>d.
       let matchesYear = (js_ge (year d) (fst (yearRange st)) \<and> js_le (year d) (snd (yearRange st)));
           matchesType = (selectedType st = ''All'' \<or> disaster_type d = selectedType st);
           matchesCountry = (selectedCountry st = ''All'' \<or> country d = selectedCountry st)
       in matchesYear \<and> matchesType \<and> matchesCountry) ds"

text \<open>
  The reset handler reads the year extent that the render has computed. The render of
  the dashboard computes the year extent before it creates the handler, so a render
  that throws leaves no handler: \<open>resetFilters\<close> is the state after a click on the
  reset button of the dashboard rendered for the dataset.
\<close>

definition handleReset :: "int option \<times> int option \<Rightarrow> dashboard_state \<Rightarrow> dashboard_state" where
  "handleReset extent st =
     st\<lparr> yearRange := extent, selectedType := ''All'', selectedCountry := ''All'',
         rankingMetric := ''response_time_hours'', scatterYAxis := ''casualties'' \<rparr>"

definition resetFilters :: "nat \<Rightarrow> event list \<Rightarrow> dashboard_state \<Rightarrow> js_error + dashboard_state" where
  "resetFilters argLimit ds st =
     (case yearExtent argLimit ds of
        Inl e \<Rightarrow> Inl e
      | Inr extent \<Rightarrow> Inr (handleReset extent st))"

section \<open>Library functions the charts call\<close>

subsection \<open>Sorting with a comparator\<close>

text \<open>
  \<open>Array.prototype.sort(comparefn)\<close> is a stable sort, and a \<open>NaN\<close> returned by the
  comparator counts as \<open>0\<close>. An element moves behind another one only when the
  comparator is positive: insertion from the right keeps equal elements in their order.
  For a consistent comparator every engine returns this array. A comparator that
  returns \<open>NaN\<close> for some pairs is not consistent, and the order is then left to the
  engine; the insertion leaves an array as it is when no element compares as positive
  with its right neighbour, as the sort of V8 does.
\<close>

definition js_positive :: "xnum option \<Rightarrow> bool" where
  "js_positive v = (case v of Some r \<Rightarrow> 0 < r | None \<Rightarrow> False)"

fun js_insert :: "('a \<Rightarrow> 'a \<Rightarrow> xnum option) \<Rightarrow> 'a \<Rightarrow> 'a list \<Rightarrow> 'a list" where
  "js_insert comparefn x [] = [x]"
| "js_insert comparefn x (y # ys) =
     (if js_positive (comparefn x y) then y # js_insert comparefn x ys else x # y # ys)"

definition js_sort :: "('a \<Rightarrow> 'a \<Rightarrow> xnum option) \<Rightarrow> 'a list \<Rightarrow> 'a list" where
  "js_sort comparefn xs = foldr (js_insert comparefn) xs []"

subsection \<open>d3.rollup and d3.mean\<close>

text \<open>
  \<open>d3.rollup\<close> walks the values once; each value joins the group of its key, and a key
  seen for the first time opens a group at the end of the map. The map is a list of
  entries in insertion order, \<open>Map.get\<close> is \<^const>\<open>map_of\<close>.
\<close>

fun group_add :: "'k \<Rightarrow> 'a \<Rightarrow> ('k \<times> 'a list) list \<Rightarrow> ('k \<times> 'a list) list" where
  "group_add k x [] = [(k, [x])]"
| "group_add k x ((k', g) # groups) =
     (if k' = k then (k', g @ [x]) # groups else (k', g) # group_add k x groups)"

definition d3_group :: "('a \<Rightarrow> 'k) \<Rightarrow> 'a list \<Rightarrow> ('k \<times> 'a list) list" where
  "d3_group keyof vs = fold (\<lambda>v groups. group_add (keyof v) v groups) vs []"

definition d3_rollup :: "'a list \<Rightarrow> ('a list \<Rightarrow> 'b) \<Rightarrow> ('a \<Rightarrow> 'k) \<Rightarrow> ('k \<times> 'b) list" where
  "d3_rollup vs reduce keyof = map (\<lambda>(k, g). (k, reduce g)) (d3_group keyof vs)"

definition d3_rollup2 ::
  "'a list \<Rightarrow> ('a list \<Rightarrow> 'b) \<Rightarrow> ('a \<Rightarrow> 'k) \<Rightarrow> ('a \<Rightarrow> 'j) \<Rightarrow> ('k \<times> ('j \<times> 'b) list) list" where
  "d3_rollup2 vs reduce keyof1 keyof2 =
     map (\<lambda>(k, g). (k, d3_rollup g reduce keyof2)) (d3_group keyof1 vs)"

text \<open>
  \<open>d3.mean\<close> counts and adds the values in one pass, skipping \<open>null\<close>,
  \<open>undefined\<close> and \<open>NaN\<close>, and returns the sum over the count, or \<open>undefined\<close>
  when it has counted none. The values it reads here are the measures of event
  records, which are numbers other than \<open>NaN\<close> (they may be infinite), so it counts
  every value. Its result is \<open>None\<close> when it is \<open>undefined\<close> or \<open>NaN\<close>: the two
  behave alike in the arithmetic that follows.
\<close>

definition d3_mean :: "(rat \<Rightarrow> xnum) \<Rightarrow> 'a list \<Rightarrow> ('a \<Rightarrow> xnum) \<Rightarrow> xnum option" where
  "d3_mean fl vs valueof =
     (case fold (\<lambda>v (n, s). (n + 1, js_plus fl s (Some (valueof v)))) vs (0 :: nat, Some 0) of
        (n, s) \<Rightarrow> if n \<noteq> 0 then js_div fl s (of_nat n) else None)"

section \<open>Aggregator (components/charts/TypeSeverityChart.jsx)\<close>

record type_row =
  ts_type :: string
  ts_avgCasualties :: "xnum option"
  ts_avgEconomicLoss :: "xnum option"
  ts_count :: nat

text \<open>The reducer's object is the triple (avgCasualties, avgEconomicLoss, count).\<close>

definition aggregated ::
  "(rat \<Rightarrow> xnum) \<Rightarrow> event list \<Rightarrow> (string \<times> xnum option \<times> xnum option \<times> nat) list" where
  "aggregated fl ds =
     d3_rollup ds
       (\<lambda>v. (d3_mean fl v casualties, d3_mean fl v economic_loss_usd, length v))
       disaster_type"

definition chartData :: "(rat \<Rightarrow> xnum) \<Rightarrow> event list \<Rightarrow> type_row list" where
  "chartData fl ds =
     js_sort (\<lambda>a b. js_sub fl (ts_avgCasualties b) (ts_avgCasualties a))
       (map (\<lambda>(type, avgCasualties, avgEconomicLoss, n).
               \<lparr> ts_type = type,
                 ts_avgCasualties = avgCasualties,
                 ts_avgEconomicLoss = js_div fl avgEconomicLoss 1000000,
                 ts_count = n \<rparr>)
          (aggregated fl ds))"

text \<open>The effect of the chart returns before it aggregates when there is no record.\<close>

definition typeSeverityEffect :: "(rat \<Rightarrow> xnum) \<Rightarrow> event list \<Rightarrow> type_row list option" where
  "typeSeverityEffect fl ds = (if length ds = 0 then None else Some (chartData fl ds))"

section \<open>Sampler (components/charts/ResponseScatterChart.jsx)\<close>

text \<open>\<open>xs.filter((_, index) => p(index))\<close>.\<close>

definition filter_index :: "(nat \<Rightarrow> bool) \<Rightarrow> 'a list \<Rightarrow> 'a list" where
  "filter_index p xs = map fst (filter (\<lambda>(x, index). p index) (zip xs [0..<length xs]))"

definition MAX_POINTS :: nat where
  "MAX_POINTS = 2000"

definition sampledData :: "'a list \<Rightarrow> 'a list" where
  "sampledData ds =
     (if length ds > MAX_POINTS
      then (let step = length ds div MAX_POINTS
            in take MAX_POINTS (filter_index (\<lambda>index. index mod step = 0) ds))
      else ds)"

text \<open>The effect of the chart returns before it samples when there is no record.\<close>

definition scatterEffect :: "'a list \<Rightarrow> 'a list option" where
  "scatterEffect ds = (if length ds = 0 then None else Some (sampledData ds))"

section \<open>Rank selector (components/charts/CountryRankChart.jsx)\<close>

record country_row =
  cr_country :: string
  cr_avgResponseTime :: "xnum option"
  cr_avgCasualties :: "xnum option"
  cr_avgEconomicLoss :: "xnum option"
  cr_count :: nat

definition countryAggregated ::
  "(rat \<Rightarrow> xnum) \<Rightarrow> event list \<Rightarrow>
   (string \<times> xnum option \<times> xnum option \<times> xnum option \<times> nat) list" where
  "countryAggregated fl ds =
     d3_rollup ds
       (\<lambda>v. (d3_mean fl v response_time_hours,
             d3_mean fl v casualties,
             js_div fl (d3_mean fl v economic_loss_usd) 1000000,
             length v))
       country"

definition countryChartData :: "(rat \<Rightarrow> xnum) \<Rightarrow> event list \<Rightarrow> country_row list" where
  "countryChartData fl ds =
     map (\<lambda>(c, avgResponseTime, avgCasualties, avgEconomicLoss, n).
            \<lparr> cr_country = c,
              cr_avgResponseTime = avgResponseTime,
              cr_avgCasualties = avgCasualties,
              cr_avgEconomicLoss = avgEconomicLoss,
              cr_count = n \<rparr>)
       (countryAggregated fl ds)"

text \<open>\<open>row[metricKey]\<close> for the key the metric selects.\<close>

definition metricKey :: "string \<Rightarrow> country_row \<Rightarrow> xnum option" where
  "metricKey metric =
     (if metric = ''response_time_hours'' then cr_avgResponseTime
      else if metric = ''casualties'' then cr_avgCasualties
      else cr_avgEconomicLoss)"

definition rankRows :: "(rat \<Rightarrow> xnum) \<Rightarrow> string \<Rightarrow> country_row list \<Rightarrow> country_row list" where
  "rankRows fl metric rows =
     take 15 (js_sort (\<lambda>a b. js_sub fl (metricKey metric b) (metricKey metric a)) rows)"

definition countryRank :: "(rat \<Rightarrow> xnum) \<Rightarrow> event list \<Rightarrow> string \<Rightarrow> country_row list" where
  "countryRank fl ds metric = rankRows fl metric (countryChartData fl ds)"

text \<open>The effect of the chart returns before it aggregates when there is no record.\<close>

definition countryRankEffect ::
  "(rat \<Rightarrow> xnum) \<Rightarrow> event list \<Rightarrow> string \<Rightarrow> country_row list option" where
  "countryRankEffect fl ds metric =
     (if length ds = 0 then None else Some (countryRank fl ds metric))"

section \<open>Stack builder (components/charts/TimeTrendChart.jsx)\<close>

text \<open>
  A row of \<open>stackData\<close> is a plain object: a map from property names to numbers,
  with the property \<open>year\<close> and one property per disaster type. The assignment
  \<open>obj[k] = v\<close> of a number creates or overwrites the property \<open>k\<close>, except for
  the name \<open>__proto__\<close>: that is the accessor of the prototype, which ignores a
  number, so no property is created.
\<close>

type_synonym stack_row = "string \<rightharpoonup> int option"

type_synonym stack_point = "int option \<times> int option \<times> stack_row"

definition nested :: "event list \<Rightarrow> (int option \<times> (string \<times> nat) list) list" where
  "nested ds = d3_rollup2 ds length year disaster_type"

text \<open>\<open>nested.get(year)?.get(type) || 0\<close>.\<close>

definition crossCount :: "(int option \<times> (string \<times> nat) list) list \<Rightarrow> int option \<Rightarrow> string \<Rightarrow> nat" where
  "crossCount tab yr t =
     (case map_of tab yr of
        None \<Rightarrow> 0
      | Some inner \<Rightarrow> (case map_of inner t of None \<Rightarrow> 0 | Some n \<Rightarrow> (if n = 0 then 0 else n)))"

text \<open>The years are numbers, so the default sort orders them by their decimal strings.\<close>

definition years :: "event list \<Rightarrow> int option list" where
  "years ds = sort_key toString (js_Set (map year ds))"

definition types :: "event list \<Rightarrow> string list" where
  "types ds = sort (js_Set (map disaster_type ds))"

definition set_property :: "stack_row \<Rightarrow> string \<Rightarrow> int option \<Rightarrow> stack_row" where
  "set_property obj k v = (if k = ''__proto__'' then obj else obj(k \<mapsto> v))"

definition stackData :: "event list \<Rightarrow> stack_row list" where
  "stackData ds =
     map (\<lambda>yr. fold (\<lambda>t obj. set_property obj t (Some (int (crossCount (nested ds) yr t))))
                 (types ds) [''year'' \<mapsto> yr])
       (years ds)"

definition visibleTypes :: "string set \<Rightarrow> event list \<Rightarrow> string list" where
  "visibleTypes hiddenTypes ds = filter (\<lambda>t. t \<notin> hiddenTypes) (types ds)"

text \<open>
  \<open>d3.stack\<close> with the order and the offset \<open>none\<close>. Every series starts as the points
  \<open>[0, +d[key]]\<close> with their datum; then each series after the first is lifted onto the
  one before it. A name that the row does not hold reads as \<open>undefined\<close> or as an
  inherited object (the prototype, for \<open>__proto__\<close>), and both convert to \<open>NaN\<close>.
\<close>

definition js_add :: "int option \<Rightarrow> int option \<Rightarrow> int option" where
  "js_add a b = (case (a, b) of (Some x, Some y) \<Rightarrow> Some (x + y) | _ \<Rightarrow> None)"

definition stackValue :: "stack_row \<Rightarrow> string \<Rightarrow> int option" where
  "stackValue d k = (case d k of None \<Rightarrow> None | Some v \<Rightarrow> v)"

definition stackSeries :: "string list \<Rightarrow> stack_row list \<Rightarrow> (string \<times> stack_point list) list" where
  "stackSeries ks rows = map (\<lambda>k. (k, map (\<lambda>d. (Some 0, stackValue d k, d)) rows)) ks"

definition lift_point :: "stack_point \<Rightarrow> stack_point \<Rightarrow> stack_point" where
  "lift_point p0 p1 =
     (case (p0, p1) of
        ((a0, a1, d0), (b0, b1, d)) \<Rightarrow>
          (let lo = (if isNaN a1 then a0 else a1) in (lo, js_add b1 lo, d)))"

fun stackOffsetNone ::
  "stack_point list \<Rightarrow> (string \<times> stack_point list) list \<Rightarrow> (string \<times> stack_point list) list" where
  "stackOffsetNone s0 [] = []"
| "stackOffsetNone s0 ((k, s1) # rest) =
     (let s1' = map2 lift_point s0 s1 in (k, s1') # stackOffsetNone s1' rest)"

definition d3_stack :: "string list \<Rightarrow> stack_row list \<Rightarrow> (string \<times> stack_point list) list" where
  "d3_stack ks rows =
     (case stackSeries ks rows of
        [] \<Rightarrow> []
      | (k, s) # rest \<Rightarrow> (k, s) # stackOffsetNone s rest)"

definition series :: "string set \<Rightarrow> event list \<Rightarrow> (string \<times> stack_point list) list" where
  "series hiddenTypes ds = d3_stack (visibleTypes hiddenTypes ds) (stackData ds)"

text \<open>The effect of the chart returns before it builds the stack when there is no record.\<close>

definition timeTrendEffect :: "string set \<Rightarrow> event list \<Rightarrow> (string \<times> stack_point list) list option" where
  "timeTrendEffect hiddenTypes ds = (if length ds = 0 then None else Some (series hiddenTypes ds))"

section \<open>The claims' own notions\<close>

text \<open>The validity of a raw row, as the claim words it.\<close>

definition valid_row :: "(string \<Rightarrow> jsdate) \<Rightarrow> raw_row \<Rightarrow> bool" where
  "valid_row newDate r =
     (newDate (csv_date r) \<noteq> InvalidDate \<and> csv_country r \<noteq> [] \<and> csv_disaster_type r \<noteq> [])"

text \<open>The number of rows the normalizer drops.\<close>

definition dropped :: "(string \<Rightarrow> jsdate) \<Rightarrow> raw_row list \<Rightarrow> nat" where
  "dropped newDate rows = length (filter (\<lambda>r. \<not> valid_row newDate r) rows)"

text \<open>The seven measures of an event record, and the raw fields they are read from.\<close>

definition event_measures :: "event \<Rightarrow> xnum list" where
  "event_measures e =
     [severity_index e, casualties e, economic_loss_usd e, response_time_hours e,
      aid_amount_usd e, response_efficiency_score e, recovery_days e]"

definition raw_measures :: "raw_row \<Rightarrow> string list" where
  "raw_measures r =
     [csv_severity_index r, csv_casualties r, csv_economic_loss_usd r, csv_response_time_hours r,
      csv_aid_amount_usd r, csv_response_efficiency_score r, csv_recovery_days r]"

text \<open>The filter condition, as the claim words it.\<close>

definition matches :: "dashboard_state \<Rightarrow> event \<Rightarrow> bool" where
  "matches st d =
     ((case (yearRange st, year d) of
         ((Some lo, Some hi), Some y) \<Rightarrow> lo \<le> y \<and> y \<le> hi
       | _ \<Rightarrow> False) \<and>
      (selectedType st = ''All'' \<or> disaster_type d = selectedType st) \<and>
      (selectedCountry st = ''All'' \<or> country d = selectedCountry st))"

text \<open>The years of a dataset, as integers.\<close>

definition year_values :: "event list \<Rightarrow> int list" where
  "year_values ds = concat (map (\<lambda>d. case year d of None \<Rightarrow> [] | Some y \<Rightarrow> [y]) ds)"

text \<open>Descending order of two rows by a key that is a number on both.\<close>

definition desc :: "('a \<Rightarrow> xnum option) \<Rightarrow> 'a \<Rightarrow> 'a \<Rightarrow> bool" where
  "desc k a b = (case (k a, k b) of (Some x, Some y) \<Rightarrow> y \<le> x | _ \<Rightarrow> False)"

text \<open>
  The arithmetic mean of a list of finite values, the records of a disaster type and
  the records of a country.
\<close>

definition mean :: "rat list \<Rightarrow> rat" where
  "mean xs = sum_list xs / of_nat (length xs)"

definition of_type :: "string \<Rightarrow> event list \<Rightarrow> event list" where
  "of_type t ds = filter (\<lambda>d. disaster_type d = t) ds"

definition of_country :: "string \<Rightarrow> event list \<Rightarrow> event list" where
  "of_country c ds = filter (\<lambda>d. country d = c) ds"

text \<open>
  The mean of a list of numbers in the arithmetic of the program: the values are added
  from left to right, starting from \<open>0\<close>, every sum is rounded, and the last sum is
  divided by the number of values and rounded. There is no mean of no value.
\<close>

fun rounded_sum :: "(rat \<Rightarrow> xnum) \<Rightarrow> xnum option \<Rightarrow> xnum list \<Rightarrow> xnum option" where
  "rounded_sum fl s [] = s"
| "rounded_sum fl s (x # xs) = rounded_sum fl (js_plus fl s (Some x)) xs"

definition rounded_mean :: "(rat \<Rightarrow> xnum) \<Rightarrow> xnum list \<Rightarrow> xnum option" where
  "rounded_mean fl xs =
     (if xs = [] then None else js_div fl (rounded_sum fl (Some 0) xs) (of_nat (length xs)))"

text \<open>
  No operation of the mean of the finite values \<open>xs\<close> rounds: each of the sums of the
  first \<open>k\<close> values and the quotient are numbers that the rounding leaves as they are.
\<close>

definition exact_mean :: "(rat \<Rightarrow> xnum) \<Rightarrow> rat list \<Rightarrow> bool" where
  "exact_mean fl xs =
     (list_all (\<lambda>k. fl (sum_list (take k xs)) = Fin (sum_list (take k xs))) [1..<Suc (length xs)] \<and>
      fl (mean xs) = Fin (mean xs))"

text \<open>The row of the group table for a disaster type, and the one for a country.\<close>

definition type_row_of :: "(rat \<Rightarrow> xnum) \<Rightarrow> event list \<Rightarrow> string \<Rightarrow> type_row" where
  "type_row_of fl ds t =
     \<lparr> ts_type = t,
       ts_avgCasualties = rounded_mean fl (map casualties (of_type t ds)),
       ts_avgEconomicLoss =
         js_div fl (rounded_mean fl (map economic_loss_usd (of_type t ds))) 1000000,
       ts_count = length (of_type t ds) \<rparr>"

definition country_row_of :: "(rat \<Rightarrow> xnum) \<Rightarrow> event list \<Rightarrow> string \<Rightarrow> country_row" where
  "country_row_of fl ds c =
     \<lparr> cr_country = c,
       cr_avgResponseTime = rounded_mean fl (map response_time_hours (of_country c ds)),
       cr_avgCasualties = rounded_mean fl (map casualties (of_country c ds)),
       cr_avgEconomicLoss =
         js_div fl (rounded_mean fl (map economic_loss_usd (of_country c ds))) 1000000,
       cr_count = length (of_country c ds) \<rparr>"

text \<open>
  A ranking of rows by a key: the first 15 rows of the rearrangement of the rows that is
  descending in the key and keeps rows of equal key in their original order.
\<close>

definition ranked :: "(country_row \<Rightarrow> xnum option) \<Rightarrow> country_row list \<Rightarrow> country_row list \<Rightarrow> bool" where
  "ranked k rows out =
     (\<exists>ys. out = take 15 ys \<and> mset ys = mset rows \<and> sorted_wrt (desc k) ys \<and>
           (\<forall>v. filter (\<lambda>r. k r = v) ys = filter (\<lambda>r. k r = v) rows))"

text \<open>
  The rounded difference of any two finite values of the list has the sign of their
  exact difference. Doubles have this property: the difference of two different
  doubles never rounds to zero.
\<close>

definition sign_exact :: "(rat \<Rightarrow> xnum) \<Rightarrow> xnum option list \<Rightarrow> bool" where
  "sign_exact fl vs =
     (\<forall>a b. Some (Fin a) \<in> set vs \<and> Some (Fin b) \<in> set vs \<longrightarrow> (0 < fl (b - a)) = (a < b))"

text \<open>
  The number of records of a year and a disaster type, and the entry of the cross
  table for them when it has one.
\<close>

definition count_of :: "event list \<Rightarrow> int option \<Rightarrow> string \<Rightarrow> nat" where
  "count_of ds yr t = length (filter (\<lambda>d. year d = yr \<and> disaster_type d = t) ds)"

definition crosstab_cell :: "(int option \<times> (string \<times> nat) list) list \<Rightarrow> int option \<Rightarrow> string \<Rightarrow> nat option" where
  "crosstab_cell tab yr t = (case map_of tab yr of None \<Rightarrow> None | Some inner \<Rightarrow> map_of inner t)"

text \<open>
  The layers of a stack, as the claim words them: the band of a key in a row starts at
  the sum of the row's values for the keys before it and ends at that sum plus its own
  value.
\<close>

definition value_of :: "stack_row \<Rightarrow> string \<Rightarrow> int" where
  "value_of d k = (case stackValue d k of None \<Rightarrow> 0 | Some n \<Rightarrow> n)"

definition band_of :: "string list \<Rightarrow> string \<Rightarrow> stack_row \<Rightarrow> stack_point" where
  "band_of before k d =
     (Some (sum_list (map (value_of d) before)),
      Some (sum_list (map (value_of d) before) + value_of d k), d)"

fun stack_bands :: "string list \<Rightarrow> string list \<Rightarrow> stack_row list \<Rightarrow> (string \<times> stack_point list) list" where
  "stack_bands before [] rows = []"
| "stack_bands before (k # ks) rows =
     (k, map (band_of before k) rows) # stack_bands (before @ [k]) ks rows"

text \<open>
  The total of the visible counts of the year at position \<open>j\<close>, and the height of a
  stack there: the upper end of its last layer, \<open>0\<close> for a stack without layers.
\<close>

definition visible_total :: "string set \<Rightarrow> event list \<Rightarrow> nat \<Rightarrow> int" where
  "visible_total hiddenTypes ds j =
     sum_list (map (\<lambda>t. int (count_of ds (years ds ! j) t)) (visibleTypes hiddenTypes ds))"

definition stack_height :: "(string \<times> stack_point list) list \<Rightarrow> nat \<Rightarrow> int option" where
  "stack_height layers j =
     (case layers of [] \<Rightarrow> Some 0 | _ \<Rightarrow> fst (snd (snd (last layers) ! j)))"

section \<open>Inputs of the worked examples\<close>

text \<open>
  The built-ins on the values the examples use. The dates are ISO dates read in UTC.
  The numbers are decimal integers and the two infinities, and the empty string
  converts to \<open>0\<close>; the other strings of the examples (\<open>n/a\<close>, \<open>soon\<close>) are
  neither dates nor numbers. The sums, differences and quotients of the examples are
  integers and halves of integers, far below \<open>2^53\<close>: they are doubles, the
  arithmetic does not round them, and the rounding of the examples is the identity.
  The engine of the examples passes up to 125000 arguments to a call.
\<close>

definition exampleDate :: "string \<Rightarrow> jsdate" where
  "exampleDate s =
     (if s = ''2018-01-05'' then ValidDate 1515110400000 2018 0
      else if s = ''2019-06-15'' then ValidDate 1560556800000 2019 5
      else if s = ''2020-03-01'' then ValidDate 1583020800000 2020 2
      else if s = ''2024-12-31'' then ValidDate 1735603200000 2024 11
      else InvalidDate)"

definition exampleNumber :: "string \<Rightarrow> xnum option" where
  "exampleNumber s =
     (if s = [] then Some (Fin 0)
      else map_of [(''0'', Fin 0), (''1'', Fin 1), (''2'', Fin 2), (''4'', Fin 4), (''5'', Fin 5),
                   (''6'', Fin 6), (''12'', Fin 12), (''30'', Fin 30), (''-5'', Fin (- 5)),
                   (''1000000'', Fin 1000000), (''3000000'', Fin 3000000),
                   (''Infinity'', PosInf), (''-Infinity'', NegInf)] s)"

definition exampleRound :: "rat \<Rightarrow> xnum" where
  "exampleRound x = Fin x"

definition exampleArgLimit :: nat where
  "exampleArgLimit = 125000"

definition exampleRow :: "string \<Rightarrow> string \<Rightarrow> string \<Rightarrow> string \<Rightarrow> raw_row" where
  "exampleRow d c t n =
     \<lparr> csv_date = d, csv_country = c, csv_disaster_type = t, csv_severity_index = ''5'',
       csv_casualties = n, csv_economic_loss_usd = ''1000000'', csv_response_time_hours = ''12'',
       csv_aid_amount_usd = [], csv_response_efficiency_score = ''n/a'', csv_recovery_days = ''30'',
       csv_latitude = ''0'', csv_longitude = ''4'' \<rparr>"

definition exampleEvent :: "string \<Rightarrow> string \<Rightarrow> string \<Rightarrow> string \<Rightarrow> event" where
  "exampleEvent d c t n = parseRow exampleDate exampleNumber (exampleRow d c t n)"

definition exampleRows :: "raw_row list" where
  "exampleRows =
     [exampleRow ''2019-06-15'' ''Peru'' ''Flood'' ''2'',
      exampleRow ''2018-01-05'' ''Chile'' ''Fire'' ''6'',
      exampleRow ''2020-03-01'' ''Peru'' ''Fire'' ''4'']"

definition exampleData :: "event list" where
  "exampleData =
     [exampleEvent ''2019-06-15'' ''Peru'' ''Flood'' ''2'',
      exampleEvent ''2018-01-05'' ''Chile'' ''Fire'' ''6'',
      exampleEvent ''2020-03-01'' ''Peru'' ''Fire'' ''4'']"

definition exampleFloods :: "event list" where
  "exampleFloods =
     [exampleEvent ''2019-06-15'' ''Peru'' ''Flood'' ''2'',
      exampleEvent ''2018-01-05'' ''Chile'' ''Fire'' ''5'',
      exampleEvent ''2020-03-01'' ''Peru'' ''Flood'' ''4'',
      exampleEvent ''2019-06-15'' ''Chile'' ''Flood'' ''6'']"

text \<open>
  A dataset with both infinities in one group: the country \<open>B\<close>, and the type
  \<open>Fire\<close>, hold a record with the casualties \<open>Infinity\<close> and one with
  \<open>-Infinity\<close>.
\<close>

definition exampleInfinite :: "event list" where
  "exampleInfinite =
     [exampleEvent ''2019-06-15'' ''A'' ''Flood'' ''1'',
      exampleEvent ''2019-06-15'' ''B'' ''Fire'' ''Infinity'',
      exampleEvent ''2019-06-15'' ''B'' ''Fire'' ''-Infinity'',
      exampleEvent ''2019-06-15'' ''C'' ''Flood'' ''2'']"

text \<open>A dataset of one record, whose disaster type has the name \<open>__proto__\<close>.\<close>

definition exampleProto :: "event list" where
  "exampleProto = [exampleEvent ''2019-06-15'' ''Peru'' ''__proto__'' ''2'']"

definition exampleRank :: "string \<Rightarrow> rat \<Rightarrow> country_row" where
  "exampleRank c t =
     \<lparr> cr_country = c, cr_avgResponseTime = Some (Fin t), cr_avgCasualties = Some (Fin 1),
       cr_avgEconomicLoss = Some (Fin 1), cr_count = 1 \<rparr>"

definition exampleRanks :: "country_row list" where
  "exampleRanks = [exampleRank ''A'' 12, exampleRank ''B'' 30, exampleRank ''C'' 30, exampleRank ''D'' 5]"

section \<open>Properties of the numbers\<close>

lemma xnum_le_simps [simp]:
  "Fin a \<le> Fin b \<longleftrightarrow> a \<le> b"
  "NegInf \<le> x" "x \<le> PosInf"
  "\<not> Fin a \<le> NegInf" "\<not> PosInf \<le> Fin a" "\<not> PosInf \<le> NegInf"
  by (cases x; simp add: less_eq_xnum_def)+

lemma xnum_less_simps [simp]:
  "Fin a < Fin b \<longleftrightarrow> a < b"
  "NegInf < Fin a" "Fin a < PosInf" "NegInf < PosInf"
  "\<not> x < NegInf" "\<not> PosInf < x"
  by (cases x; auto simp: less_xnum_def less_eq_xnum_def)+

lemma xnum_zero_simps [simp]:
  "(0 :: xnum) \<le> Fin a \<longleftrightarrow> 0 \<le> a" "Fin a \<le> 0 \<longleftrightarrow> a \<le> 0"
  "(0 :: xnum) < Fin a \<longleftrightarrow> 0 < a" "Fin a < 0 \<longleftrightarrow> a < 0"
  "(0 :: xnum) < PosInf" "\<not> (0 :: xnum) < NegInf"
  "Fin a = 0 \<longleftrightarrow> a = 0" "0 = Fin a \<longleftrightarrow> a = 0"
  "PosInf \<noteq> (0 :: xnum)" "NegInf \<noteq> (0 :: xnum)"
  by (auto simp: zero_xnum_def)

section \<open>Properties of the normalizer\<close>

lemma getTime_None: "getTime d = None \<longleftrightarrow> d = InvalidDate"
  by (cases d) simp_all

lemma validData_parsedData:
  "validData (parsedData newDate toNumber rows) =
   map (parseRow newDate toNumber) (filter (valid_row newDate) rows)"
  by (induction rows)
     (simp_all add: validData_def parsedData_def valid_row_def parseRow_def isNaN_def
        truthy_def getTime_None Let_def)

lemma orZero_value: "orZero x = (case x of None \<Rightarrow> 0 | Some v \<Rightarrow> v)"
  by (simp add: orZero_def split: option.splits)

lemma event_measures_parseRow:
  "event_measures (parseRow newDate toNumber r) = map (\<lambda>s. orZero (toNumber s)) (raw_measures r)"
  by (simp add: event_measures_def raw_measures_def parseRow_def Let_def)

lemma dropped_length:
  "length (filter (valid_row newDate) rows) + dropped newDate rows = length rows"
  unfolding dropped_def by (induction rows) simp_all

text \<open>
  Claim C2, as the code has it. For every sequence of raw rows the hook's data are the
  records of exactly the rows whose date parses to a valid instant and whose country and
  disaster type are non-empty, in the order of the input, one record per row (nothing
  is merged or deduplicated); the rows left out are exactly the rows that fail one of the
  three checks. The hook returns these records with its two flags and nothing else: the
  number of rows dropped is the difference of the two lengths, which takes the input to
  compute.
\<close>

theorem normalize_exact:
  "useDisasterData newDate toNumber (Inr rows) =
     \<lparr> data = map (parseRow newDate toNumber) (filter (valid_row newDate) rows),
       loading = False, error = None \<rparr> \<and>
   length (data (useDisasterData newDate toNumber (Inr rows))) + dropped newDate rows = length rows"
  by (simp add: useDisasterData_def validData_parsedData dropped_length)

theorem normalize_exact_witness:
  "data (useDisasterData exampleDate exampleNumber
     (Inr [exampleRow ''2019-06-15'' ''Peru'' ''Flood'' ''2'',
           exampleRow ''soon'' ''Peru'' ''Flood'' ''2'',
           exampleRow ''2019-06-15'' ''Peru'' ''Flood'' ''2'',
           exampleRow ''2020-03-01'' [] ''Flood'' ''4'',
           exampleRow ''2020-03-01'' ''Chile'' [] ''4'',
           exampleRow ''2018-01-05'' ''Chile'' ''Fire'' ''6''])) =
   [exampleEvent ''2019-06-15'' ''Peru'' ''Flood'' ''2'',
    exampleEvent ''2019-06-15'' ''Peru'' ''Flood'' ''2'',
    exampleEvent ''2018-01-05'' ''Chile'' ''Fire'' ''6'']"
  using normalize_exact [of exampleDate exampleNumber
     "[exampleRow ''2019-06-15'' ''Peru'' ''Flood'' ''2'',
       exampleRow ''soon'' ''Peru'' ''Flood'' ''2'',
       exampleRow ''2019-06-15'' ''Peru'' ''Flood'' ''2'',
       exampleRow ''2020-03-01'' [] ''Flood'' ''4'',
       exampleRow ''2020-03-01'' ''Chile'' [] ''4'',
       exampleRow ''2018-01-05'' ''Chile'' ''Fire'' ''6'']"]
  by (simp add: valid_row_def exampleRow_def exampleDate_def exampleEvent_def)

text \<open>
  Claim C2, as the spec states it, fails in its last part: the hook does not yield the
  number of rows dropped. No function of the hook's result is that number: the empty
  input and an input of one row without a country give the same result, and the first
  drops no row while the second drops one. (What the hook prints is computed from the
  valid records as well.)
\<close>

theorem normalize_no_dropped_count:
  "\<not> (\<exists>f. \<forall>rows. f (useDisasterData exampleDate exampleNumber (Inr rows)) = dropped exampleDate rows)"
proof
  assume "\<exists>f. \<forall>rows. f (useDisasterData exampleDate exampleNumber (Inr rows)) = dropped exampleDate rows"
  then obtain f where f: "\<And>rows. f (useDisasterData exampleDate exampleNumber (Inr rows)) = dropped exampleDate rows"
    by blast
  let ?bad = "exampleRow ''2020-03-01'' [] ''Flood'' ''4''"
  have same: "useDisasterData exampleDate exampleNumber (Inr [?bad]) =
              useDisasterData exampleDate exampleNumber (Inr [])"
    by (simp add: useDisasterData_def validData_parsedData valid_row_def exampleRow_def)
  have "dropped exampleDate [?bad] = 1"
    by (simp add: dropped_def valid_row_def exampleRow_def)
  moreover have "dropped exampleDate [] = 0"
    by (simp add: dropped_def)
  ultimately show False
    using f [of "[?bad]"] f [of "[]"] same by simp
qed

text \<open>
  Claim C8, as the code has it. For every raw row, each of the seven measures of its
  record is the number its raw field converts to, and \<open>0\<close> when the field does not
  convert to a number (the conversion never fails); a missing field is the empty string,
  which converts to \<open>0\<close>. Negative numbers are kept: the measures of a record are all
  non-negative exactly when none of the raw fields converts to a negative number.
\<close>

theorem measures_coerced:
  "list_all2 (\<lambda>s x. x = (case toNumber s of None \<Rightarrow> 0 | Some v \<Rightarrow> v))
     (raw_measures r) (event_measures (parseRow newDate toNumber r)) \<and>
   ((\<forall>x \<in> set (event_measures (parseRow newDate toNumber r)). 0 \<le> x) \<longleftrightarrow>
    (\<forall>s \<in> set (raw_measures r). \<forall>v. toNumber s = Some v \<longrightarrow> 0 \<le> v))"
proof
  show "list_all2 (\<lambda>s x. x = (case toNumber s of None \<Rightarrow> 0 | Some v \<Rightarrow> v))
     (raw_measures r) (event_measures (parseRow newDate toNumber r))"
    by (simp add: event_measures_parseRow list_all2_map2 list_all2_same orZero_value)
  show "(\<forall>x \<in> set (event_measures (parseRow newDate toNumber r)). 0 \<le> x) \<longleftrightarrow>
    (\<forall>s \<in> set (raw_measures r). \<forall>v. toNumber s = Some v \<longrightarrow> 0 \<le> v)"
    by (auto simp: event_measures_parseRow orZero_value split: option.splits)
qed

theorem measures_coerced_witness:
  "event_measures (exampleEvent ''2019-06-15'' ''Peru'' ''Flood'' ''2'') =
     [Fin 5, Fin 2, Fin 1000000, Fin 12, Fin 0, Fin 0, Fin 30]"
  using measures_coerced [of exampleNumber "exampleRow ''2019-06-15'' ''Peru'' ''Flood'' ''2''" exampleDate]
  by (simp add: exampleEvent_def raw_measures_def exampleRow_def exampleNumber_def
        list_all2_Cons1)

text \<open>
  Claim C8, as the spec states it, fails: a raw row whose severity index is \<open>-5\<close>
  passes the three checks and its record has the severity index \<open>-5\<close>.
\<close>

theorem measures_negative:
  "map severity_index (data (useDisasterData exampleDate exampleNumber
     (Inr [exampleRow ''2019-06-15'' ''Peru'' ''Flood'' ''2'' \<lparr> csv_severity_index := ''-5'' \<rparr>]))) =
     [Fin (- 5)] \<and>
   \<not> (0 :: xnum) \<le> Fin (- 5)"
  by (simp add: useDisasterData_def validData_def parsedData_def parseRow_def exampleRow_def
        exampleDate_def exampleNumber_def isNaN_def truthy_def orZero_def Let_def)

text \<open>
  When the CSV reader fails, the hook reports the message and holds no record.
\<close>

lemma useDisasterData_failure:
  "useDisasterData newDate toNumber (Inl message) =
     \<lparr> data = [], loading = False, error = Some message \<rparr>"
  by (simp add: useDisasterData_def)

section \<open>Properties of the filter state\<close>

lemma year_range_matches:
  "(js_ge y (fst r) \<and> js_le y (snd r)) =
   (case (r, y) of ((Some lo, Some hi), Some v) \<Rightarrow> lo \<le> v \<and> v \<le> hi | _ \<Rightarrow> False)"
  by (cases r; cases y) (auto simp: js_ge_def js_le_def split: option.splits)

lemma filteredData_matches: "filteredData ds st = filter (matches st) ds"
  unfolding filteredData_def matches_def Let_def year_range_matches by (rule refl)

lemma exampleData_normalized:
  "data (useDisasterData exampleDate exampleNumber (Inr exampleRows)) = exampleData"
  by (simp add: useDisasterData_def validData_parsedData valid_row_def exampleRows_def
        exampleData_def exampleRow_def exampleDate_def exampleEvent_def)

text \<open>
  Claim C1. For every record list and filter state, the filtered subset is the
  sub-sequence of the records that satisfy the filter condition: a record is in it if
  and only if it is a record of the input, its year lies in the inclusive year range, the
  selected type is \<open>All\<close> or the record's type, and the selected country is \<open>All\<close>
  or the record's country. The filter is a function of the records and the state that
  returns a new list, so the input is unchanged and the same arguments give the same
  subset.
\<close>

theorem filteredData_iff:
  "filteredData ds st = filter (matches st) ds \<and>
   (d \<in> set (filteredData ds st) \<longleftrightarrow> d \<in> set ds \<and> matches st d)"
  by (simp add: filteredData_matches)

theorem filteredData_iff_witness:
  "map casualties
     (filteredData exampleData
        (initial_state \<lparr> yearRange := (Some 2019, Some 2020), selectedCountry := ''Peru'' \<rparr>)) = [Fin 2, Fin 4] \<and>
   map casualties
     (filteredData exampleData
        (initial_state \<lparr> yearRange := (Some 2018, Some 2019), selectedType := ''Fire'' \<rparr>)) = [Fin 6]"
  using filteredData_iff [of exampleData
          "initial_state \<lparr> yearRange := (Some 2019, Some 2020), selectedCountry := ''Peru'' \<rparr>"]
        filteredData_iff [of exampleData
          "initial_state \<lparr> yearRange := (Some 2018, Some 2019), selectedType := ''Fire'' \<rparr>"]
  by (simp add: matches_def initial_state_def exampleData_def exampleEvent_def parseRow_def
        exampleRow_def exampleDate_def exampleNumber_def orZero_def Let_def)

lemma valid_year: "d \<in> set (validData (parsedData newDate toNumber rows)) \<Longrightarrow> \<exists>y. year d = Some y"
proof -
  assume "d \<in> set (validData (parsedData newDate toNumber rows))"
  then obtain r where r: "d = parseRow newDate toNumber r" "newDate (csv_date r) \<noteq> InvalidDate"
    by (auto simp: validData_parsedData valid_row_def)
  then show ?thesis
    by (cases "newDate (csv_date r)") (simp_all add: parseRow_def Let_def)
qed

lemma fold_js_min: "fold js_min (map Some ys) (Some y) = Some (fold min ys y)"
  by (induction ys arbitrary: y) (simp_all add: js_min_def min.commute)

lemma fold_js_max: "fold js_max (map Some ys) (Some y) = Some (fold max ys y)"
  by (induction ys arbitrary: y) (simp_all add: js_max_def max.commute)

lemma year_values_Some:
  "\<forall>d \<in> set ds. \<exists>y. year d = Some y \<Longrightarrow> map year ds = map Some (year_values ds)"
  by (induction ds) (auto simp: year_values_def)

lemma yearExtent_valid:
  assumes "\<forall>d \<in> set ds. \<exists>y. year d = Some y" "ds \<noteq> []" "length ds \<le> argLimit"
  shows "yearExtent argLimit ds =
           Inr (Some (Min (set (year_values ds))), Some (Max (set (year_values ds))))"
proof -
  from assms(2) obtain y ys where yv: "year_values ds = y # ys"
    using year_values_Some [OF assms(1)] by (cases "year_values ds") auto
  then have m: "map year ds = Some y # map Some ys"
    using year_values_Some [OF assms(1)] by simp
  then have "length (Some y # map Some ys) = length ds"
    by (metis length_map)
  with assms(3) have l: "\<not> argLimit < length (Some y # map Some ys)"
    by simp
  have "fold min ys y = Min (set (y # ys))" "fold max ys y = Max (set (y # ys))"
    by (simp_all only: Min.set_eq_fold Max.set_eq_fold)
  with m l show ?thesis
    by (simp add: yearExtent_def yv fold_js_min fold_js_max)
qed

lemma yearExtent_too_long:
  assumes "argLimit < length ds"
  shows "yearExtent argLimit ds = Inl RangeError"
proof -
  from assms obtain y ys where m: "map year ds = y # ys"
    by (cases "map year ds") auto
  then have "length (y # ys) = length ds"
    by (metis length_map)
  with assms m show ?thesis
    by (simp add: yearExtent_def)
qed

lemma filteredData_reset:
  assumes "\<forall>d \<in> set ds. \<exists>y. year d = Some y"
  shows "filteredData ds
           (handleReset (Some (Min (set (year_values ds))), Some (Max (set (year_values ds)))) st) = ds"
proof -
  have "matches (handleReset (Some (Min (set (year_values ds))), Some (Max (set (year_values ds)))) st) d"
    if "d \<in> set ds" for d
  proof -
    from that assms obtain y where y: "year d = Some y" by blast
    with that have "y \<in> set (year_values ds)"
      by (force simp: year_values_def)
    then have "Min (set (year_values ds)) \<le> y" "y \<le> Max (set (year_values ds))"
      by simp_all
    then show ?thesis
      by (simp add: matches_def handleReset_def y)
  qed
  then show ?thesis
    by (simp add: filteredData_matches)
qed

text \<open>
  Claim C7 says that reset restores the year range and the full dataset for every
  non-empty dataset. The render of the dashboard passes one argument per record to
  \<open>Math.min\<close> and to \<open>Math.max\<close>: for a dataset with more records than the engine
  passes arguments, the call throws a \<open>RangeError\<close>, the dashboard has no year
  extent and no reset.
\<close>

theorem reset_throws:
  assumes "argLimit < length ds"
  shows "yearExtent argLimit ds = Inl RangeError \<and> resetFilters argLimit ds st = Inl RangeError"
  using yearExtent_too_long [OF assms] by (simp add: resetFilters_def)

theorem reset_throws_witness:
  "exampleArgLimit < length (replicate 130000 (exampleEvent ''2019-06-15'' ''Peru'' ''Flood'' ''2'')) \<and>
   resetFilters exampleArgLimit (replicate 130000 (exampleEvent ''2019-06-15'' ''Peru'' ''Flood'' ''2''))
     initial_state = Inl RangeError"
proof -
  have l: "exampleArgLimit < length (replicate 130000 (exampleEvent ''2019-06-15'' ''Peru'' ''Flood'' ''2''))"
    unfolding length_replicate exampleArgLimit_def by simp
  from reset_throws [OF l, of initial_state] l show ?thesis
    by (intro conjI) (rule l, erule conjunct2)
qed

text \<open>
  Within the limit, reset does what the claim says: for every non-empty dataset that the
  normalizer produces and that has no more records than the engine passes arguments,
  and for every filter state, reset sets the year range to the least and the greatest
  year of the full dataset and both selectors to \<open>All\<close>, and the filtered subset of
  the reset state is the full dataset.
\<close>

theorem reset_restores:
  assumes "ds = data (useDisasterData newDate toNumber (Inr rows))" and "ds \<noteq> []"
    and "length ds \<le> argLimit"
  shows "\<exists>st'. resetFilters argLimit ds st = Inr st' \<and>
           yearRange st' = (Some (Min (set (year_values ds))), Some (Max (set (year_values ds)))) \<and>
           selectedType st' = ''All'' \<and> selectedCountry st' = ''All'' \<and>
           filteredData ds st' = ds"
proof -
  have v: "\<forall>d \<in> set ds. \<exists>y. year d = Some y"
    using valid_year [of _ newDate toNumber rows] by (simp add: assms(1) useDisasterData_def)
  let ?ext = "(Some (Min (set (year_values ds))), Some (Max (set (year_values ds))))"
  have "resetFilters argLimit ds st = Inr (handleReset ?ext st)"
    by (simp add: resetFilters_def yearExtent_valid [OF v assms(2,3)])
  moreover have "yearRange (handleReset ?ext st) = ?ext"
    "selectedType (handleReset ?ext st) = ''All''"
    "selectedCountry (handleReset ?ext st) = ''All''"
    by (simp_all add: handleReset_def)
  moreover have "filteredData ds (handleReset ?ext st) = ds"
    by (rule filteredData_reset [OF v])
  ultimately show ?thesis
    by blast
qed

theorem reset_restores_witness:
  "exampleData = data (useDisasterData exampleDate exampleNumber (Inr exampleRows)) \<and>
   exampleData \<noteq> [] \<and> length exampleData \<le> exampleArgLimit \<and>
   (\<exists>st'. resetFilters exampleArgLimit exampleData
             (initial_state \<lparr> yearRange := (Some 2019, Some 2019), selectedType := ''Fire'' \<rparr>) =
           Inr st' \<and>
         yearRange st' = (Some 2018, Some 2020) \<and> filteredData exampleData st' = exampleData)"
proof -
  have n: "exampleData = data (useDisasterData exampleDate exampleNumber (Inr exampleRows))"
    by (simp add: exampleData_normalized)
  have e: "exampleData \<noteq> []"
    by (simp add: exampleData_def)
  have l: "length exampleData \<le> exampleArgLimit"
    by (simp add: exampleData_def exampleArgLimit_def)
  have y: "year_values exampleData = [2019, 2018, 2020]"
    by (simp add: year_values_def exampleData_def exampleEvent_def parseRow_def exampleRow_def
          exampleDate_def Let_def)
  have "\<exists>st'. resetFilters exampleArgLimit exampleData
             (initial_state \<lparr> yearRange := (Some 2019, Some 2019), selectedType := ''Fire'' \<rparr>) =
           Inr st' \<and>
         yearRange st' = (Some 2018, Some 2020) \<and> filteredData exampleData st' = exampleData"
    using reset_restores [OF n e l] by (simp add: y) blast
  with n e l show ?thesis
    by blast
qed

text \<open>
  Claim C10. When the dataset is empty, the two dropdown lists are empty (\<open>All\<close> is
  not in them), and the year extent, which the range controls use and reset installs, is
  the default 2018 to 2024.
\<close>

theorem empty_dataset_defaults:
  "uniqueTypes [] = [] \<and> uniqueCountries [] = [] \<and>
   yearExtent argLimit [] = Inr (Some 2018, Some 2024) \<and>
   resetFilters argLimit [] st = Inr (handleReset (Some 2018, Some 2024) st) \<and>
   yearRange (handleReset (Some 2018, Some 2024) st) = (Some 2018, Some 2024)"
  by (simp add: uniqueTypes_def uniqueCountries_def yearExtent_def resetFilters_def
        handleReset_def)

lemma js_Set_fold:
  "set (fold (\<lambda>x s. if x \<in> set s then s else s @ [x]) xs acc) = set acc \<union> set xs \<and>
   (distinct acc \<longrightarrow> distinct (fold (\<lambda>x s. if x \<in> set s then s else s @ [x]) xs acc))"
  by (induction xs arbitrary: acc) auto

lemma set_js_Set: "set (js_Set xs) = set xs"
  using js_Set_fold [of xs "[]"] by (simp add: js_Set_def)

lemma distinct_js_Set: "distinct (js_Set xs)"
  using js_Set_fold [of xs "[]"] by (simp add: js_Set_def)

text \<open>
  The list of countries is as the spec describes it: \<open>All\<close> first, then the distinct
  countries of the full dataset in ascending order.
\<close>

lemma uniqueCountries_sorted:
  assumes "ds \<noteq> []"
  shows "hd (uniqueCountries ds) = ''All'' \<and> sorted (tl (uniqueCountries ds)) \<and>
         distinct (tl (uniqueCountries ds)) \<and> set (tl (uniqueCountries ds)) = country ` set ds"
  using assms by (simp add: uniqueCountries_def Let_def set_js_Set distinct_js_Set)

lemma uniqueCountries_sorted_witness:
  "exampleData \<noteq> [] \<and> uniqueCountries exampleData = [''All'', ''Chile'', ''Peru'']"
proof -
  have e: "exampleData \<noteq> []"
    by (simp add: exampleData_def)
  have "hd (uniqueCountries exampleData) = ''All''"
    using uniqueCountries_sorted [OF e] by (rule conjunct1)
  moreover have "uniqueCountries exampleData = [''All'', ''Chile'', ''Peru'']"
    by (simp add: uniqueCountries_def js_Set_def exampleData_def exampleEvent_def parseRow_def
          exampleRow_def Let_def)
  ultimately show ?thesis
    using e by simp
qed

text \<open>The list of types is sorted as a whole, \<open>All\<close> included.\<close>

lemma uniqueTypes_sorted:
  assumes "ds \<noteq> []"
  shows "sorted (uniqueTypes ds) \<and> set (uniqueTypes ds) = insert ''All'' (disaster_type ` set ds)"
  using assms by (simp add: uniqueTypes_def set_js_Set del: sort_key_simps)

text \<open>
  Claim C9 says that both dropdown lists are the distinct values of the full dataset in
  ascending order with \<open>All\<close> prepended as the first element. The list of countries is
  built that way (sort, then prepend). The list of types is built the other way round
  (prepend, then sort), so \<open>All\<close> is not the first element when a type sorts before
  it: for a dataset whose only disaster type is \<open>Accident\<close>, the list of types is
  \<open>Accident, All\<close>, while the same dataset with the country \<open>Albania\<close> gives the
  list of countries \<open>All, Albania\<close>.
\<close>

theorem uniqueTypes_All_not_first:
  "uniqueTypes [exampleEvent ''2019-06-15'' ''Albania'' ''Accident'' ''2''] = [''Accident'', ''All''] \<and>
   uniqueCountries [exampleEvent ''2019-06-15'' ''Albania'' ''Accident'' ''2''] = [''All'', ''Albania'']"
  by (simp add: uniqueTypes_def uniqueCountries_def js_Set_def exampleEvent_def parseRow_def
        exampleRow_def Let_def)

section \<open>Properties of the library functions\<close>

lemma group_add_map:
  "distinct ks \<Longrightarrow>
   group_add k x (map (\<lambda>k'. (k', G k')) ks) =
     (if k \<in> set ks then map (\<lambda>k'. (k', if k' = k then G k' @ [x] else G k')) ks
      else map (\<lambda>k'. (k', G k')) ks @ [(k, [x])])"
  by (induction ks) auto

lemma js_Set_snoc:
  "js_Set (xs @ [x]) = (if x \<in> set xs then js_Set xs else js_Set xs @ [x])"
  by (simp add: js_Set_def set_js_Set [unfolded js_Set_def])

lemma d3_group_snoc:
  "d3_group keyof (vs @ [v]) = group_add (keyof v) v (d3_group keyof vs)"
  by (simp add: d3_group_def)

lemma d3_group_eq:
  "d3_group keyof vs = map (\<lambda>k. (k, filter (\<lambda>v. keyof v = k) vs)) (js_Set (map keyof vs))"
proof (induction vs rule: rev_induct)
  case Nil
  then show ?case by (simp add: d3_group_def js_Set_def)
next
  case (snoc v vs)
  have nil: "filter (\<lambda>u. keyof u = keyof v) vs = []" if "keyof v \<notin> set (map keyof vs)"
    unfolding filter_empty_conv using that by (metis image_eqI set_map)
  show ?case
    by (auto simp add: d3_group_snoc snoc.IH group_add_map distinct_js_Set set_js_Set js_Set_snoc nil simp del: set_map)
qed

lemma fold_mean:
  "fold (\<lambda>v (n, s). (n + 1, js_plus fl s (Some (f v)))) vs (n0 :: nat, s0) =
   (n0 + length vs, rounded_sum fl s0 (map f vs))"
  by (induction vs arbitrary: n0 s0) simp_all

lemma d3_mean_eq: "d3_mean fl vs f = rounded_mean fl (map f vs)"
  unfolding d3_mean_def fold_mean rounded_mean_def by simp

lemma rounded_sum_exact:
  assumes "\<forall>k \<in> {1..length xs}. fl (s0 + sum_list (take k xs)) = Fin (s0 + sum_list (take k xs))"
  shows "rounded_sum fl (Some (Fin s0)) (map Fin xs) = Some (Fin (s0 + sum_list xs))"
  using assms
proof (induction xs arbitrary: s0)
  case Nil
  then show ?case by simp
next
  case (Cons x xs)
  from Cons.prems have "fl (s0 + sum_list (take 1 (x # xs))) = Fin (s0 + sum_list (take 1 (x # xs)))"
    by (metis atLeastAtMost_iff le_refl length_Cons Suc_le_mono le0 One_nat_def)
  then have one: "fl (s0 + x) = Fin (s0 + x)"
    by simp
  have "fl (s0 + x + sum_list (take k xs)) = Fin (s0 + x + sum_list (take k xs))"
    if "k \<in> {1..length xs}" for k
  proof -
    from that have "Suc k \<in> {1..length (x # xs)}" by simp
    with Cons.prems have "fl (s0 + sum_list (take (Suc k) (x # xs))) =
        Fin (s0 + sum_list (take (Suc k) (x # xs)))"
      by blast
    then show ?thesis by (simp add: add.assoc)
  qed
  then have "rounded_sum fl (Some (Fin (s0 + x))) (map Fin xs) = Some (Fin (s0 + x + sum_list xs))"
    using Cons.IH [of "s0 + x"] by blast
  then show ?case
    by (simp add: js_plus_def one add.assoc)
qed

lemma rounded_mean_exact:
  assumes "exact_mean fl xs" "xs \<noteq> []"
  shows "rounded_mean fl (map Fin xs) = Some (Fin (mean xs))"
proof -
  from assms(1) have "\<forall>k \<in> {1..length xs}. fl (0 + sum_list (take k xs)) = Fin (0 + sum_list (take k xs))"
    by (auto simp: exact_mean_def list_all_iff)
  then have "rounded_sum fl (Some (Fin 0)) (map Fin xs) = Some (Fin (sum_list xs))"
    using rounded_sum_exact [of xs fl 0] by simp
  moreover from assms(1) have "fl (sum_list xs / of_nat (length xs)) = Fin (sum_list xs / of_nat (length xs))"
    by (simp add: exact_mean_def mean_def)
  ultimately show ?thesis
    using assms(2) by (simp add: rounded_mean_def js_div_def mean_def zero_xnum_def)
qed

lemma rounded_sum_finite:
  "s \<noteq> None \<Longrightarrow> rounded_sum fl s (map Fin xs) \<noteq> None"
proof (induction xs arbitrary: s)
  case Nil
  then show ?case by simp
next
  case (Cons x xs)
  from Cons.prems obtain a where "s = Some a" by auto
  then have "js_plus fl s (Some (Fin x)) \<noteq> None"
    by (cases a) (simp_all add: js_plus_def)
  then show ?case
    using Cons.IH by simp
qed

lemma js_div_defined: "js_div fl s c \<noteq> None \<longleftrightarrow> s \<noteq> None"
  by (simp add: js_div_def split: option.splits xnum.splits)

lemma rounded_mean_finite:
  "xs \<noteq> [] \<Longrightarrow> rounded_mean fl (map Fin xs) \<noteq> None"
proof -
  assume "xs \<noteq> []"
  moreover have "rounded_sum fl (Some 0) (map Fin xs) \<noteq> None"
    by (rule rounded_sum_finite) simp
  ultimately show ?thesis
    unfolding rounded_mean_def using js_div_defined [of fl "rounded_sum fl (Some 0) (map Fin xs)"]
    by simp
qed

lemma mset_js_insert: "mset (js_insert c x ys) = add_mset x (mset ys)"
  by (induction ys) simp_all

lemma mset_js_sort: "mset (js_sort c xs) = mset xs"
  by (induction xs) (simp_all add: js_sort_def mset_js_insert)

lemma set_js_sort: "set (js_sort c xs) = set xs"
  by (metis mset_js_sort set_mset_mset)

lemma set_js_insert: "set (js_insert c x ys) = insert x (set ys)"
  by (metis mset_js_insert set_mset_add_mset_insert set_mset_mset)

text \<open>
  The comparator \<open>(a, b) => b[key] - a[key]\<close> is positive exactly when the key of
  \<open>a\<close> is less than the key of \<open>b\<close>, when both keys are numbers and the
  difference of finite keys rounds to a number of its sign.
\<close>

lemma js_positive_sub:
  assumes "sign_exact fl vs" "Some a \<in> set vs" "Some b \<in> set vs"
  shows "js_positive (js_sub fl (Some b) (Some a)) \<longleftrightarrow> a < b"
proof (cases a; cases b)
  fix x y assume "a = Fin x" "b = Fin y"
  with assms show ?thesis
    by (simp add: js_sub_def js_positive_def sign_exact_def)
qed (simp_all add: js_sub_def js_positive_def)

lemma desc_comparator:
  assumes "\<forall>r \<in> set rows. k r \<noteq> None" "sign_exact fl (map k rows)"
    and "u \<in> set rows" "v \<in> set rows"
  shows "js_positive (js_sub fl (k v) (k u)) \<longleftrightarrow> \<not> desc k u v"
proof -
  from assms(1,3,4) have "k u \<noteq> None" "k v \<noteq> None"
    by blast+
  then obtain a b where ab: "k u = Some a" "k v = Some b"
    by (meson option.exhaust)
  with assms(3,4) have "Some a \<in> set (map k rows)" "Some b \<in> set (map k rows)"
    by (metis image_eqI set_map)+
  from js_positive_sub [OF assms(2) this] show ?thesis
    by (simp add: ab desc_def not_le)
qed

lemma desc_trans:
  "desc k a b \<Longrightarrow> desc k b c \<Longrightarrow> desc k a c"
  by (auto simp: desc_def split: option.splits)

lemma desc_total:
  "k a \<noteq> None \<Longrightarrow> k b \<noteq> None \<Longrightarrow> \<not> desc k a b \<Longrightarrow> desc k b a"
  by (auto simp: desc_def split: option.splits)

lemma desc_strict:
  "k a \<noteq> None \<Longrightarrow> k b \<noteq> None \<Longrightarrow> \<not> desc k a b \<Longrightarrow> k a \<noteq> k b"
  by (auto simp: desc_def split: option.splits)

lemma sorted_js_insert:
  assumes "\<forall>r \<in> A. k r \<noteq> None"
    and "\<forall>u \<in> A. \<forall>v \<in> A. js_positive (cmp u v) \<longleftrightarrow> \<not> desc k u v"
    and "x \<in> A" "set ys \<subseteq> A" "sorted_wrt (desc k) ys"
  shows "sorted_wrt (desc k) (js_insert cmp x ys)"
  using assms(4,5)
proof (induction ys)
  case Nil
  then show ?case by simp
next
  case (Cons y ys)
  from Cons.prems have y: "y \<in> A" and ys: "set ys \<subseteq> A" and s: "sorted_wrt (desc k) ys"
    and yz: "\<forall>z \<in> set ys. desc k y z"
    by simp_all
  show ?case
  proof (cases "js_positive (cmp x y)")
    case True
    with assms(2,3) y have "\<not> desc k x y" by blast
    with assms(1,3) y have "desc k y x"
      by (meson desc_total)
    with True yz Cons.IH [OF ys s] show ?thesis
      by (simp add: set_js_insert)
  next
    case False
    with assms(2,3) y have xy: "desc k x y" by blast
    with yz have "\<forall>z \<in> set ys. desc k x z"
      by (meson desc_trans)
    with False xy yz s show ?thesis
      by simp
  qed
qed

lemma sorted_js_sort:
  assumes "\<forall>r \<in> A. k r \<noteq> None"
    and "\<forall>u \<in> A. \<forall>v \<in> A. js_positive (cmp u v) \<longleftrightarrow> \<not> desc k u v"
  shows "set xs \<subseteq> A \<Longrightarrow> sorted_wrt (desc k) (js_sort cmp xs)"
proof (induction xs)
  case Nil
  then show ?case by (simp add: js_sort_def)
next
  case (Cons x xs)
  then have "sorted_wrt (desc k) (js_sort cmp xs)" "x \<in> A" "set (js_sort cmp xs) \<subseteq> A"
    by (simp_all add: set_js_sort)
  from sorted_js_insert [OF assms this(2,3,1)] show ?case
    by (simp add: js_sort_def)
qed

lemma filter_js_insert:
  assumes "\<forall>r \<in> A. k r \<noteq> None"
    and "\<forall>u \<in> A. \<forall>v \<in> A. js_positive (cmp u v) \<longleftrightarrow> \<not> desc k u v"
    and "x \<in> A"
  shows "set ys \<subseteq> A \<Longrightarrow>
         filter (\<lambda>r. k r = v) (js_insert cmp x ys) = filter (\<lambda>r. k r = v) (x # ys)"
proof (induction ys)
  case Nil
  then show ?case by simp
next
  case (Cons y ys)
  then have y: "y \<in> A" and ih: "filter (\<lambda>r. k r = v) (js_insert cmp x ys) = filter (\<lambda>r. k r = v) (x # ys)"
    by simp_all
  show ?case
  proof (cases "js_positive (cmp x y)")
    case True
    with assms(2,3) y have "\<not> desc k x y" by blast
    with assms(1,3) y have "k x \<noteq> k y"
      by (meson desc_strict)
    with True ih show ?thesis
      by auto
  next
    case False
    then show ?thesis by simp
  qed
qed

lemma filter_js_sort:
  assumes "\<forall>r \<in> A. k r \<noteq> None"
    and "\<forall>u \<in> A. \<forall>v \<in> A. js_positive (cmp u v) \<longleftrightarrow> \<not> desc k u v"
  shows "set xs \<subseteq> A \<Longrightarrow> filter (\<lambda>r. k r = v) (js_sort cmp xs) = filter (\<lambda>r. k r = v) xs"
proof (induction xs)
  case Nil
  then show ?case by (simp add: js_sort_def)
next
  case (Cons x xs)
  then have ih: "filter (\<lambda>r. k r = v) (js_sort cmp xs) = filter (\<lambda>r. k r = v) xs"
    and x: "x \<in> A" and s: "set (js_sort cmp xs) \<subseteq> A"
    by (simp_all add: set_js_sort)
  from filter_js_insert [OF assms x s, of v] ih show ?case
    by (simp add: js_sort_def)
qed

text \<open>
  Sorting by a key whose values are numbers: the result is descending in the key and
  keeps the rows of equal key in their order.
\<close>

lemma js_sort_desc:
  assumes "\<forall>r \<in> set rows. k r \<noteq> None" "sign_exact fl (map k rows)"
  shows "mset (js_sort (\<lambda>a b. js_sub fl (k b) (k a)) rows) = mset rows"
    and "sorted_wrt (desc k) (js_sort (\<lambda>a b. js_sub fl (k b) (k a)) rows)"
    and "filter (\<lambda>r. k r = v) (js_sort (\<lambda>a b. js_sub fl (k b) (k a)) rows) =
         filter (\<lambda>r. k r = v) rows"
proof -
  have c: "\<forall>u \<in> set rows. \<forall>v \<in> set rows.
             js_positive (js_sub fl (k v) (k u)) \<longleftrightarrow> \<not> desc k u v"
    using desc_comparator [OF assms] by blast
  show "mset (js_sort (\<lambda>a b. js_sub fl (k b) (k a)) rows) = mset rows"
    by (rule mset_js_sort)
  show "sorted_wrt (desc k) (js_sort (\<lambda>a b. js_sub fl (k b) (k a)) rows)"
    by (rule sorted_js_sort [OF assms(1) c]) simp
  show "filter (\<lambda>r. k r = v) (js_sort (\<lambda>a b. js_sub fl (k b) (k a)) rows) =
         filter (\<lambda>r. k r = v) rows"
    by (rule filter_js_sort [OF assms(1) c]) simp
qed

section \<open>Properties of the aggregator\<close>

lemma chartData_mset:
  "mset (chartData fl ds) = mset (map (type_row_of fl ds) (js_Set (map disaster_type ds)))"
  by (simp add: chartData_def mset_js_sort aggregated_def d3_rollup_def d3_group_eq d3_mean_eq
        type_row_of_def [abs_def] of_type_def o_def)

lemma of_type_nonempty: "t \<in> set (map disaster_type ds) \<Longrightarrow> of_type t ds \<noteq> []"
  by (auto simp: of_type_def filter_empty_conv)

lemma chartData_set:
  "set (chartData fl ds) = type_row_of fl ds ` set (map disaster_type ds)"
  using chartData_mset [of fl ds] by (metis set_mset_mset set_map set_js_Set)

lemma chartData_types:
  "mset (map ts_type (chartData fl ds)) = mset (js_Set (map disaster_type ds))"
proof -
  have "map ts_type (map (type_row_of fl ds) (js_Set (map disaster_type ds))) =
        js_Set (map disaster_type ds)"
    by (simp add: type_row_of_def o_def)
  then show ?thesis
    using chartData_mset [of fl ds] by (metis mset_map)
qed

text \<open>
  Claim C3 says that the group table holds the arithmetic mean of each measure and
  never \<open>NaN\<close>. The table holds the mean as the program's arithmetic computes it, and
  a measure can be infinite: the type \<open>Fire\<close> below has a record with the casualties
  \<open>Infinity\<close> and one with \<open>-Infinity\<close>, their sum is \<open>NaN\<close>, and so is the
  mean that the table reports for the two records.
\<close>

theorem aggregate_mean_NaN:
  "map casualties (of_type ''Fire'' exampleInfinite) = [PosInf, NegInf] \<and>
   map (\<lambda>row. (ts_type row, ts_avgCasualties row, ts_count row))
     (chartData exampleRound exampleInfinite) =
     [(''Flood'', Some (Fin (3 / 2)), 2), (''Fire'', None, 2)]"
  by (simp add: of_type_def exampleInfinite_def exampleEvent_def parseRow_def exampleRow_def
        exampleNumber_def exampleRound_def orZero_def Let_def chartData_def aggregated_def
        d3_rollup_def d3_group_def d3_mean_def js_plus_def js_div_def js_sub_def js_sort_def
        js_positive_def zero_xnum_def)

text \<open>
  Claim C3, amended. For every record subset, the group table has exactly one row per
  disaster type that occurs in the subset, so a row only for a type with at least one
  record. The row of a type holds the number of its records and, for the casualties and
  for the economic loss, the mean as the program's arithmetic computes it: the values
  of the records are added from left to right, every sum rounded, and the last sum is
  divided by the number of records (and, for the economic loss, by a million). When the
  values are finite and none of these operations rounds, this is the arithmetic mean; in
  particular a group whose casualties are 2, 4 and 6 reports the mean 4 and the count 3
  when the sums 2, 6 and 12 and the quotient 4 are not rounded, as they are not in
  doubles. When the values are finite, the mean is a number or an infinity, not
  \<open>NaN\<close>. The table of the empty subset is empty.
\<close>

theorem aggregate_means:
  "distinct (map ts_type (chartData fl ds)) \<and>
   set (map ts_type (chartData fl ds)) = set (map disaster_type ds) \<and>
   (\<forall>row \<in> set (chartData fl ds).
      of_type (ts_type row) ds \<noteq> [] \<and>
      ts_count row = length (of_type (ts_type row) ds) \<and>
      ts_avgCasualties row = rounded_mean fl (map casualties (of_type (ts_type row) ds)) \<and>
      ts_avgEconomicLoss row =
        js_div fl (rounded_mean fl (map economic_loss_usd (of_type (ts_type row) ds))) 1000000 \<and>
      (\<forall>xs. map casualties (of_type (ts_type row) ds) = map Fin xs \<longrightarrow>
         ts_avgCasualties row \<noteq> None \<and>
         (exact_mean fl xs \<longrightarrow> ts_avgCasualties row = Some (Fin (mean xs)))) \<and>
      (\<forall>xs. map economic_loss_usd (of_type (ts_type row) ds) = map Fin xs \<longrightarrow>
         ts_avgEconomicLoss row \<noteq> None \<and>
         (exact_mean fl xs \<and> fl (mean xs / 1000000) = Fin (mean xs / 1000000) \<longrightarrow>
            ts_avgEconomicLoss row = Some (Fin (mean xs / 1000000)))) \<and>
      (map casualties (of_type (ts_type row) ds) = [Fin 2, Fin 4, Fin 6] \<and>
       exact_mean fl [2, 4, 6] \<longrightarrow>
         ts_avgCasualties row = Some (Fin 4) \<and> ts_count row = 3)) \<and>
   chartData fl [] = []"
proof (intro conjI ballI)
  show "distinct (map ts_type (chartData fl ds))"
    using chartData_types [of fl ds] distinct_js_Set [of "map disaster_type ds"]
    by (metis mset_eq_imp_distinct_iff)
  show "set (map ts_type (chartData fl ds)) = set (map disaster_type ds)"
    using chartData_types [of fl ds] by (metis set_mset_mset set_js_Set)
  show "chartData fl [] = []"
    by (simp add: chartData_def aggregated_def d3_rollup_def d3_group_def js_sort_def)
next
  fix row assume "row \<in> set (chartData fl ds)"
  then obtain t where t: "t \<in> set (map disaster_type ds)" "row = type_row_of fl ds t"
    unfolding chartData_set by blast
  have ty: "ts_type row = t"
    by (simp add: t(2) type_row_of_def)
  show ne: "of_type (ts_type row) ds \<noteq> []"
    by (simp add: ty of_type_nonempty [OF t(1)])
  show n: "ts_count row = length (of_type (ts_type row) ds)"
    by (simp add: ty) (simp add: t(2) type_row_of_def)
  show c: "ts_avgCasualties row = rounded_mean fl (map casualties (of_type (ts_type row) ds))"
    by (simp add: ty) (simp add: t(2) type_row_of_def)
  show e: "ts_avgEconomicLoss row =
        js_div fl (rounded_mean fl (map economic_loss_usd (of_type (ts_type row) ds))) 1000000"
    by (simp add: ty) (simp add: t(2) type_row_of_def)
  show "\<forall>xs. map casualties (of_type (ts_type row) ds) = map Fin xs \<longrightarrow>
         ts_avgCasualties row \<noteq> None \<and>
         (exact_mean fl xs \<longrightarrow> ts_avgCasualties row = Some (Fin (mean xs)))"
  proof (intro allI impI)
    fix xs assume a: "map casualties (of_type (ts_type row) ds) = map Fin xs"
    with ne have x: "xs \<noteq> []" by auto
    show "ts_avgCasualties row \<noteq> None \<and>
         (exact_mean fl xs \<longrightarrow> ts_avgCasualties row = Some (Fin (mean xs)))"
      unfolding c a using rounded_mean_finite [OF x, of fl] rounded_mean_exact [OF _ x, of fl]
      by blast
  qed
  show "\<forall>xs. map economic_loss_usd (of_type (ts_type row) ds) = map Fin xs \<longrightarrow>
         ts_avgEconomicLoss row \<noteq> None \<and>
         (exact_mean fl xs \<and> fl (mean xs / 1000000) = Fin (mean xs / 1000000) \<longrightarrow>
            ts_avgEconomicLoss row = Some (Fin (mean xs / 1000000)))"
  proof (intro allI impI)
    fix xs assume a: "map economic_loss_usd (of_type (ts_type row) ds) = map Fin xs"
    with ne have x: "xs \<noteq> []" by auto
    have "js_div fl (rounded_mean fl (map Fin xs)) 1000000 \<noteq> None"
      using rounded_mean_finite [OF x, of fl]
        js_div_defined [of fl "rounded_mean fl (map Fin xs)" 1000000]
      by blast
    moreover have "js_div fl (rounded_mean fl (map Fin xs)) 1000000 = Some (Fin (mean xs / 1000000))"
      if "exact_mean fl xs \<and> fl (mean xs / 1000000) = Fin (mean xs / 1000000)"
      using that rounded_mean_exact [OF _ x, of fl] by (simp add: js_div_def)
    ultimately show "ts_avgEconomicLoss row \<noteq> None \<and>
         (exact_mean fl xs \<and> fl (mean xs / 1000000) = Fin (mean xs / 1000000) \<longrightarrow>
            ts_avgEconomicLoss row = Some (Fin (mean xs / 1000000)))"
      unfolding e a by blast
  qed
  show "map casualties (of_type (ts_type row) ds) = [Fin 2, Fin 4, Fin 6] \<and>
       exact_mean fl [2, 4, 6] \<longrightarrow>
         ts_avgCasualties row = Some (Fin 4) \<and> ts_count row = 3"
  proof
    assume a: "map casualties (of_type (ts_type row) ds) = [Fin 2, Fin 4, Fin 6] \<and>
       exact_mean fl [2, 4, 6]"
    then have "length (of_type (ts_type row) ds) = 3"
      by (metis length_map length_Cons list.size(3) numeral_3_eq_3)
    moreover have "map Fin [2, 4, 6] = [Fin 2, Fin 4, Fin 6]"
      by simp
    then have "rounded_mean fl [Fin 2, Fin 4, Fin 6] = Some (Fin (mean [2, 4, 6]))"
      using a rounded_mean_exact [of fl "[2, 4, 6]"] by simp
    moreover have "mean [2, 4, 6] = 4"
      by (simp add: mean_def)
    ultimately show "ts_avgCasualties row = Some (Fin 4) \<and> ts_count row = 3"
      using a by (simp add: c n)
  qed
qed

theorem aggregate_means_witness:
  "map casualties (of_type ''Flood'' exampleFloods) = map Fin [2, 4, 6] \<and>
   exact_mean exampleRound [2, 4, 6] \<and>
   (\<exists>row \<in> set (chartData exampleRound exampleFloods).
      ts_type row = ''Flood'' \<and> ts_avgCasualties row = Some (Fin 4) \<and> ts_count row = 3)"
proof -
  have g: "map casualties (of_type ''Flood'' exampleFloods) = [Fin 2, Fin 4, Fin 6]"
    by (simp add: of_type_def exampleFloods_def exampleEvent_def parseRow_def exampleRow_def
          exampleNumber_def orZero_def Let_def zero_xnum_def)
  have x: "exact_mean exampleRound [2, 4, 6]"
    by (simp add: exact_mean_def exampleRound_def)
  have "''Flood'' \<in> set (map disaster_type exampleFloods)"
    by (simp add: exampleFloods_def exampleEvent_def parseRow_def exampleRow_def Let_def)
  then have "''Flood'' \<in> set (map ts_type (chartData exampleRound exampleFloods))"
    using aggregate_means [of exampleRound exampleFloods] by simp
  then obtain row where row: "row \<in> set (chartData exampleRound exampleFloods)" "ts_type row = ''Flood''"
    by auto
  have "\<forall>row \<in> set (chartData exampleRound exampleFloods).
          map casualties (of_type (ts_type row) exampleFloods) = [Fin 2, Fin 4, Fin 6] \<and>
          exact_mean exampleRound [2, 4, 6] \<longrightarrow>
          ts_avgCasualties row = Some (Fin 4) \<and> ts_count row = 3"
    using aggregate_means [of exampleRound exampleFloods] by meson
  with row g x have "ts_avgCasualties row = Some (Fin 4) \<and> ts_count row = 3"
    by simp
  with row g x show ?thesis by auto
qed

text \<open>
  The effects of the four charts compute nothing when there is no record, and compute
  the tables above otherwise.
\<close>

lemma effects_empty:
  "typeSeverityEffect fl [] = None" "scatterEffect [] = None"
  "countryRankEffect fl [] metric = None" "timeTrendEffect hiddenTypes [] = None"
  by (simp_all add: typeSeverityEffect_def scatterEffect_def countryRankEffect_def
        timeTrendEffect_def)

lemma effects_nonempty:
  assumes "ds \<noteq> []"
  shows "typeSeverityEffect fl ds = Some (chartData fl ds)"
    and "scatterEffect ds = Some (sampledData ds)"
    and "countryRankEffect fl ds metric = Some (countryRank fl ds metric)"
    and "timeTrendEffect hiddenTypes ds = Some (series hiddenTypes ds)"
  using assms
  by (simp_all add: typeSeverityEffect_def scatterEffect_def countryRankEffect_def
        timeTrendEffect_def)

section \<open>Properties of the rank selector\<close>

lemma ranked_sort:
  assumes "\<forall>r \<in> set rows. k r \<noteq> None" "sign_exact fl (map k rows)"
  shows "ranked k rows (take 15 (js_sort (\<lambda>a b. js_sub fl (k b) (k a)) rows))"
  unfolding ranked_def
  using js_sort_desc [OF assms] by blast

lemma countryChartData_eq:
  "countryChartData fl ds = map (country_row_of fl ds) (js_Set (map country ds))"
  by (simp add: countryChartData_def countryAggregated_def d3_rollup_def d3_group_eq d3_mean_eq
        country_row_of_def [abs_def] of_country_def o_def)

lemma of_country_nonempty: "c \<in> set (map country ds) \<Longrightarrow> of_country c ds \<noteq> []"
  by (auto simp: of_country_def filter_empty_conv)

lemma map_Fin_ex:
  assumes "\<forall>d \<in> set ds. \<exists>x. f d = Fin x"
  shows "\<exists>xs. map f ds = map Fin xs"
  using assms
proof (induction ds)
  case Nil
  then show ?case by simp
next
  case (Cons d ds)
  then obtain x xs where "f d = Fin x" "map f ds = map Fin xs"
    by auto
  then have "map f (d # ds) = map Fin (x # xs)"
    by simp
  then show ?case by blast
qed

lemma rounded_mean_defined:
  assumes "\<forall>d \<in> set ds. \<exists>x. f d = Fin x" "ds \<noteq> []"
  shows "rounded_mean fl (map f ds) \<noteq> None"
proof -
  from map_Fin_ex [OF assms(1)] obtain xs where xs: "map f ds = map Fin xs"
    by blast
  with assms(2) have "xs \<noteq> []" by auto
  then show ?thesis
    unfolding xs by (rule rounded_mean_finite)
qed

text \<open>A list that is descending in a key and holds a row without a number is that row.\<close>

lemma sorted_desc_NaN:
  "sorted_wrt (desc k) ys \<Longrightarrow> r \<in> set ys \<Longrightarrow> k r = None \<Longrightarrow> ys = [r]"
proof (induction ys)
  case Nil
  then show ?case by simp
next
  case (Cons y ys)
  have "\<not> desc k y r" "\<And>z. \<not> desc k r z"
    using Cons.prems(3) by (simp_all add: desc_def split: option.splits)
  with Cons.prems(1,2) show ?case
    by (cases ys) auto
qed

lemma ranked_NaN:
  assumes "ranked k rows out" "r \<in> set rows" "k r = None"
  shows "length rows = 1"
proof -
  from assms(1) obtain ys where ys: "mset ys = mset rows" "sorted_wrt (desc k) ys"
    unfolding ranked_def by blast
  from ys(1) assms(2) have "r \<in> set ys"
    by (metis set_mset_mset)
  from sorted_desc_NaN [OF ys(2) this assms(3)] have "length ys = 1"
    by simp
  with ys(1) show ?thesis
    by (metis size_mset)
qed

text \<open>
  Claim C5 says that every aggregated group list is sorted descending by the metric's
  value. The mean of a group can be \<open>NaN\<close>: the country \<open>B\<close> below has a record
  with the casualties \<open>Infinity\<close> and one with \<open>-Infinity\<close>. The comparator
  returns \<open>NaN\<close> for every pair with this row, the sort leaves the three rows in the
  order of the aggregator, and the country with the mean 1 is ranked before the
  country with the mean 2. No arrangement of these rows is descending by the mean.
\<close>

theorem rank_not_descending:
  "map (\<lambda>r. (cr_country r, cr_avgCasualties r)) (countryChartData exampleRound exampleInfinite) =
     [(''A'', Some (Fin 1)), (''B'', None), (''C'', Some (Fin 2))] \<and>
   map (\<lambda>r. (cr_country r, cr_avgCasualties r))
     (countryRank exampleRound exampleInfinite ''casualties'') =
     [(''A'', Some (Fin 1)), (''B'', None), (''C'', Some (Fin 2))] \<and>
   (Fin 1 :: xnum) < Fin 2 \<and>
   (\<forall>out. \<not> ranked cr_avgCasualties (countryChartData exampleRound exampleInfinite) out)"
proof -
  have t: "map (\<lambda>r. (cr_country r, cr_avgCasualties r))
             (countryChartData exampleRound exampleInfinite) =
           [(''A'', Some (Fin 1)), (''B'', None), (''C'', Some (Fin 2))]"
    by (simp add: exampleInfinite_def exampleEvent_def parseRow_def exampleRow_def
          exampleNumber_def exampleRound_def orZero_def Let_def countryChartData_def
          countryAggregated_def d3_rollup_def d3_group_def d3_mean_def js_plus_def js_div_def
          zero_xnum_def)
  have s: "map (\<lambda>r. (cr_country r, cr_avgCasualties r))
             (countryRank exampleRound exampleInfinite ''casualties'') =
           [(''A'', Some (Fin 1)), (''B'', None), (''C'', Some (Fin 2))]"
    by (simp add: exampleInfinite_def exampleEvent_def parseRow_def exampleRow_def
          exampleNumber_def exampleRound_def orZero_def Let_def countryChartData_def
          countryAggregated_def d3_rollup_def d3_group_def d3_mean_def js_plus_def js_div_def
          zero_xnum_def countryRank_def rankRows_def metricKey_def js_sort_def js_sub_def
          js_positive_def)
  have l: "length (countryChartData exampleRound exampleInfinite) = 3"
    using arg_cong [OF t, of length] by simp
  have "(''B'', None) \<in>
      set (map (\<lambda>r. (cr_country r, cr_avgCasualties r)) (countryChartData exampleRound exampleInfinite))"
    unfolding t by simp
  then have "\<exists>r \<in> set (countryChartData exampleRound exampleInfinite).
               (''B'', None) = (cr_country r, cr_avgCasualties r)"
    unfolding set_map image_iff .
  then obtain r where "r \<in> set (countryChartData exampleRound exampleInfinite)"
      "(''B'', None) = (cr_country r, cr_avgCasualties r)"
    by (rule bexE)
  then have r: "r \<in> set (countryChartData exampleRound exampleInfinite)"
      "cr_avgCasualties r = None"
    by simp_all
  have n: "\<not> ranked cr_avgCasualties (countryChartData exampleRound exampleInfinite) out" for out
  proof
    assume "ranked cr_avgCasualties (countryChartData exampleRound exampleInfinite) out"
    from ranked_NaN [OF this r] l show False
      by simp
  qed
  have o: "(Fin 1 :: xnum) < Fin 2"
    by simp
  from t s o n show ?thesis
    by (intro conjI allI)
qed

text \<open>
  Claim C5, amended. For every list of group rows and each of the three selectable
  metrics, when the rows' values of the metric are numbers (not \<open>NaN\<close>) the rank
  selector returns the first 15 rows of the rows sorted descending by that value, rows
  of equal value staying in the order in which the aggregator emitted them: by the mean
  response time for \<open>response_time_hours\<close>, by the mean casualties for
  \<open>casualties\<close> and by the mean economic loss for \<open>economic_loss_usd\<close>. The
  direction is descending for the response time as for the other two. The comparator
  is the rounded difference of the two values, which has the sign of the difference, as
  it has in doubles. The rows that the selector ranks are the rows of the aggregator, one
  per country in the order of first occurrence, and their values are numbers when the
  measures of the records are finite.
\<close>

theorem rank_descending_stable:
  "((\<forall>r \<in> set rows. cr_avgResponseTime r \<noteq> None) \<and> sign_exact fl (map cr_avgResponseTime rows) \<longrightarrow>
      ranked cr_avgResponseTime rows (rankRows fl ''response_time_hours'' rows)) \<and>
   ((\<forall>r \<in> set rows. cr_avgCasualties r \<noteq> None) \<and> sign_exact fl (map cr_avgCasualties rows) \<longrightarrow>
      ranked cr_avgCasualties rows (rankRows fl ''casualties'' rows)) \<and>
   ((\<forall>r \<in> set rows. cr_avgEconomicLoss r \<noteq> None) \<and> sign_exact fl (map cr_avgEconomicLoss rows) \<longrightarrow>
      ranked cr_avgEconomicLoss rows (rankRows fl ''economic_loss_usd'' rows)) \<and>
   countryRank fl ds metric = rankRows fl metric (countryChartData fl ds) \<and>
   countryChartData fl ds = map (country_row_of fl ds) (js_Set (map country ds)) \<and>
   ((\<forall>d \<in> set ds. \<exists>x y z. response_time_hours d = Fin x \<and> casualties d = Fin y \<and>
                            economic_loss_usd d = Fin z) \<longrightarrow>
      (\<forall>r \<in> set (countryChartData fl ds).
         cr_avgResponseTime r \<noteq> None \<and> cr_avgCasualties r \<noteq> None \<and>
         cr_avgEconomicLoss r \<noteq> None))"
proof (intro conjI impI)
  show "ranked cr_avgResponseTime rows (rankRows fl ''response_time_hours'' rows)"
    if "(\<forall>r \<in> set rows. cr_avgResponseTime r \<noteq> None) \<and> sign_exact fl (map cr_avgResponseTime rows)"
    using that ranked_sort [of rows cr_avgResponseTime fl] by (simp add: rankRows_def metricKey_def)
  show "ranked cr_avgCasualties rows (rankRows fl ''casualties'' rows)"
    if "(\<forall>r \<in> set rows. cr_avgCasualties r \<noteq> None) \<and> sign_exact fl (map cr_avgCasualties rows)"
    using that ranked_sort [of rows cr_avgCasualties fl] by (simp add: rankRows_def metricKey_def)
  show "ranked cr_avgEconomicLoss rows (rankRows fl ''economic_loss_usd'' rows)"
    if "(\<forall>r \<in> set rows. cr_avgEconomicLoss r \<noteq> None) \<and> sign_exact fl (map cr_avgEconomicLoss rows)"
    using that ranked_sort [of rows cr_avgEconomicLoss fl] by (simp add: rankRows_def metricKey_def)
  show "countryRank fl ds metric = rankRows fl metric (countryChartData fl ds)"
    by (simp add: countryRank_def)
  show "countryChartData fl ds = map (country_row_of fl ds) (js_Set (map country ds))"
    by (rule countryChartData_eq)
  show "\<forall>r \<in> set (countryChartData fl ds).
         cr_avgResponseTime r \<noteq> None \<and> cr_avgCasualties r \<noteq> None \<and>
         cr_avgEconomicLoss r \<noteq> None"
    if f: "\<forall>d \<in> set ds. \<exists>x y z. response_time_hours d = Fin x \<and> casualties d = Fin y \<and>
                            economic_loss_usd d = Fin z"
  proof
    fix r assume "r \<in> set (countryChartData fl ds)"
    then obtain c where c: "c \<in> set (map country ds)" and r: "r = country_row_of fl ds c"
      unfolding countryChartData_eq by (auto simp: set_js_Set)
    note ne = of_country_nonempty [OF c]
    have s: "set (of_country c ds) \<subseteq> set ds"
      by (auto simp: of_country_def)
    have "\<forall>d \<in> set (of_country c ds). \<exists>x. response_time_hours d = Fin x"
      "\<forall>d \<in> set (of_country c ds). \<exists>x. casualties d = Fin x"
      "\<forall>d \<in> set (of_country c ds). \<exists>x. economic_loss_usd d = Fin x"
      using f s by blast+
    from this [THEN rounded_mean_defined, OF ne, of fl]
    have "rounded_mean fl (map response_time_hours (of_country c ds)) \<noteq> None"
      "rounded_mean fl (map casualties (of_country c ds)) \<noteq> None"
      "js_div fl (rounded_mean fl (map economic_loss_usd (of_country c ds))) 1000000 \<noteq> None"
      using js_div_defined [of fl "rounded_mean fl (map economic_loss_usd (of_country c ds))" 1000000]
      by blast+
    then show "cr_avgResponseTime r \<noteq> None \<and> cr_avgCasualties r \<noteq> None \<and>
         cr_avgEconomicLoss r \<noteq> None"
      unfolding r country_row_of_def by simp
  qed
qed

theorem rank_descending_stable_witness:
  "list_all (\<lambda>r. cr_avgResponseTime r \<noteq> None) exampleRanks \<and>
   sign_exact exampleRound (map cr_avgResponseTime exampleRanks) \<and>
   ranked cr_avgResponseTime exampleRanks (rankRows exampleRound ''response_time_hours'' exampleRanks) \<and>
   map cr_country (rankRows exampleRound ''response_time_hours'' exampleRanks) =
     [''B'', ''C'', ''A'', ''D'']"
proof -
  have d: "\<forall>r \<in> set exampleRanks. cr_avgResponseTime r \<noteq> None"
    by (simp add: exampleRanks_def exampleRank_def)
  have e: "sign_exact exampleRound (map cr_avgResponseTime exampleRanks)"
    by (simp add: sign_exact_def exampleRound_def zero_xnum_def)
  have r: "ranked cr_avgResponseTime exampleRanks
     (rankRows exampleRound ''response_time_hours'' exampleRanks)"
    using rank_descending_stable [of exampleRanks exampleRound] d e by meson
  have o: "map cr_country (rankRows exampleRound ''response_time_hours'' exampleRanks) =
     [''B'', ''C'', ''A'', ''D'']"
    by (simp add: rankRows_def js_sort_def exampleRanks_def exampleRank_def metricKey_def
          js_sub_def js_positive_def exampleRound_def zero_xnum_def)
  from d e r o show ?thesis
    by (simp add: list_all_iff)
qed

section \<open>Properties of the sampler\<close>

lemma zip_upt_nth: "zip xs [0..<length xs] = map (\<lambda>i. (xs ! i, i)) [0..<length xs]"
  by (rule nth_equalityI) simp_all

lemma filter_index_nth: "filter_index p xs = map (nth xs) (filter p [0..<length xs])"
  by (simp add: filter_index_def zip_upt_nth filter_map o_def)

lemma filter_stride_block:
  assumes "0 < s"
  shows "filter (\<lambda>i. i mod s = 0) [m * s..<m * s + s] = [m * s]"
proof -
  have "[m * s..<m * s + s] = (m * s) # [Suc (m * s)..<m * s + s]"
    using assms by (simp add: upt_conv_Cons)
  moreover have "filter (\<lambda>i. i mod s = 0) [Suc (m * s)..<m * s + s] = []"
  proof -
    have "i mod s \<noteq> 0" if "Suc (m * s) \<le> i" "i < m * s + s" for i
    proof -
      from that obtain j where j: "i = m * s + j" "0 < j" "j < s"
        by (metis Suc_le_eq add_less_cancel_left less_imp_add_positive)
      then show ?thesis by simp
    qed
    then show ?thesis by (auto simp: filter_empty_conv)
  qed
  ultimately show ?thesis by simp
qed

lemma filter_stride:
  assumes "0 < s"
  shows "filter (\<lambda>i. i mod s = 0) [0..<m * s] = map (\<lambda>k. k * s) [0..<m]"
proof (induction m)
  case 0
  then show ?case by simp
next
  case (Suc m)
  have "Suc m * s = m * s + s"
    by simp
  moreover have "[0..<m * s + s] = [0..<m * s] @ [m * s..<m * s + s]"
    by (rule upt_add_eq_append) simp
  ultimately have "filter (\<lambda>i. i mod s = 0) [0..<Suc m * s] =
      filter (\<lambda>i. i mod s = 0) [0..<m * s] @ filter (\<lambda>i. i mod s = 0) [m * s..<m * s + s]"
    by (simp only: filter_append)
  then show ?case
    by (simp only: Suc.IH filter_stride_block [OF assms]) simp
qed

lemma sampledData_large:
  assumes "MAX_POINTS < length ds"
  shows "sampledData ds = map (\<lambda>k. ds ! (k * (length ds div MAX_POINTS))) [0..<MAX_POINTS]"
proof -
  let ?s = "length ds div MAX_POINTS"
  have s: "0 < ?s"
    using assms by (simp add: MAX_POINTS_def div_greater_zero_iff)
  have le: "MAX_POINTS * ?s \<le> length ds"
    by simp
  then have "[0..<length ds] = [0..<MAX_POINTS * ?s] @ [MAX_POINTS * ?s..<length ds]"
    by (metis le_add_diff_inverse upt_add_eq_append zero_le)
  then have "filter (\<lambda>i. i mod ?s = 0) [0..<length ds] =
             map (\<lambda>k. k * ?s) [0..<MAX_POINTS] @ filter (\<lambda>i. i mod ?s = 0) [MAX_POINTS * ?s..<length ds]"
    by (simp add: filter_stride [OF s])
  then have "take MAX_POINTS (filter (\<lambda>i. i mod ?s = 0) [0..<length ds]) = map (\<lambda>k. k * ?s) [0..<MAX_POINTS]"
    by simp
  then show ?thesis
    using assms by (simp add: sampledData_def filter_index_nth take_map o_def)
qed

text \<open>
  Claim C4. The bound is 2000 points. A list of at most 2000 records is returned
  unchanged. A longer list is reduced, with the step \<open>length div 2000\<close>, to the
  records at the indices 0, step, 2 step and so on, in their order, cut after 2000
  elements (which are the indices up to 1999 step). The result never has more than
  2000 elements, is not empty when the input is not, and the empty list gives the empty
  list.
\<close>

theorem sample_systematic:
  "MAX_POINTS = 2000 \<and>
   (length ds \<le> MAX_POINTS \<longrightarrow> sampledData ds = ds) \<and>
   (MAX_POINTS < length ds \<longrightarrow>
      sampledData ds = map (\<lambda>k. ds ! (k * (length ds div MAX_POINTS))) [0..<MAX_POINTS]) \<and>
   length (sampledData ds) \<le> MAX_POINTS \<and>
   (ds \<noteq> [] \<longrightarrow> sampledData ds \<noteq> []) \<and>
   sampledData [] = []"
proof (intro conjI impI)
  show "MAX_POINTS = 2000" by (simp add: MAX_POINTS_def)
  show "sampledData ds = ds" if "length ds \<le> MAX_POINTS"
    using that by (simp add: sampledData_def)
  show "sampledData ds = map (\<lambda>k. ds ! (k * (length ds div MAX_POINTS))) [0..<MAX_POINTS]"
    if "MAX_POINTS < length ds"
    using that by (rule sampledData_large)
  show "length (sampledData ds) \<le> MAX_POINTS"
    by (cases "MAX_POINTS < length ds") (simp_all add: sampledData_large, simp add: sampledData_def)
  show "sampledData ds \<noteq> []" if "ds \<noteq> []"
  proof (cases "MAX_POINTS < length ds")
    case True
    have "0 < MAX_POINTS" by (simp add: MAX_POINTS_def)
    with True show ?thesis by (simp add: sampledData_large)
  next
    case False
    with that show ?thesis by (simp add: sampledData_def)
  qed
  show "sampledData [] = []" by (simp add: sampledData_def)
qed

theorem sample_systematic_witness:
  "MAX_POINTS < length [0..<10000] \<and>
   sampledData [0..<10000] = map (\<lambda>k. k * 5) [0..<MAX_POINTS] \<and>
   length [7, 8, 9 :: nat] \<le> MAX_POINTS \<and> sampledData [7, 8, 9 :: nat] = [7, 8, 9]"
proof -
  have n: "length [0..<10000] = 10000" by (simp only: length_upt diff_zero)
  have l: "MAX_POINTS < length [0..<10000]" unfolding n MAX_POINTS_def by simp
  have d: "length [0..<10000] div MAX_POINTS = 5" unfolding n MAX_POINTS_def by simp
  have s: "length [7, 8, 9 :: nat] \<le> MAX_POINTS" by (simp add: MAX_POINTS_def)
  have "sampledData [0..<10000] =
        map (\<lambda>k. [0..<10000] ! (k * (length [0..<10000] div MAX_POINTS))) [0..<MAX_POINTS]"
    by (rule sample_systematic [of "[0..<10000]", THEN conjunct2, THEN conjunct2, THEN conjunct1, THEN mp, OF l])
  then have "sampledData [0..<10000] = map (\<lambda>k. [0..<10000] ! (k * 5)) [0..<MAX_POINTS]"
    unfolding d .
  also have "\<dots> = map (\<lambda>k. k * 5) [0..<MAX_POINTS]"
  proof (rule map_cong [OF refl])
    fix k assume "k \<in> set [0..<MAX_POINTS]"
    then have "k * 5 < 10000" by (simp add: MAX_POINTS_def del: upt_rec_numeral)
    then show "[0..<10000] ! (k * 5) = k * 5"
      by (simp only: nth_upt add_0)
  qed
  finally have a: "sampledData [0..<10000] = map (\<lambda>k. k * 5) [0..<MAX_POINTS]" .
  have b: "sampledData [7, 8, 9 :: nat] = [7, 8, 9]"
    by (rule sample_systematic [of "[7, 8, 9 :: nat]", THEN conjunct2, THEN conjunct1, THEN mp, OF s])
  from l s a b show ?thesis by (intro conjI)
qed

section \<open>Properties of the stack builder\<close>

lemma map_of_keys: "map_of (map (\<lambda>k. (k, f k)) ks) k = (if k \<in> set ks then Some (f k) else None)"
  by (induction ks) auto

lemma nested_eq:
  "nested ds =
   map (\<lambda>yr. (yr, map (\<lambda>t. (t, length (filter (\<lambda>d. disaster_type d = t) (filter (\<lambda>d. year d = yr) ds))))
                     (js_Set (map disaster_type (filter (\<lambda>d. year d = yr) ds)))))
     (js_Set (map year ds))"
  by (simp add: nested_def d3_rollup2_def d3_rollup_def d3_group_eq o_def)

lemma crossCount_nested: "crossCount (nested ds) yr t = count_of ds yr t"
proof -
  have z: "count_of ds yr t = 0" if "yr \<notin> set (map year ds)"
    using that by (auto simp: count_of_def filter_empty_conv)
  have z': "count_of ds yr t = 0" if "t \<notin> set (map disaster_type (filter (\<lambda>d. year d = yr) ds))"
    using that by (auto simp: count_of_def filter_empty_conv)
  have c: "length (filter (\<lambda>d. disaster_type d = t) (filter (\<lambda>d. year d = yr) ds)) = count_of ds yr t"
    by (simp add: count_of_def conj_commute)
  show ?thesis
    unfolding crossCount_def nested_eq map_of_keys
    using z z' c by (simp add: set_js_Set map_of_keys del: set_map)
qed

lemma fold_upd_other:
  "k \<notin> set ts \<Longrightarrow> fold (\<lambda>t obj. set_property obj t (f t)) ts m k = m k"
  by (induction ts arbitrary: m) (auto simp: set_property_def)

lemma fold_upd_in:
  "k \<in> set ts \<Longrightarrow> k \<noteq> ''__proto__'' \<Longrightarrow>
   fold (\<lambda>t obj. set_property obj t (f t)) ts m k = Some (f k)"
proof (induction ts arbitrary: m)
  case Nil
  then show ?case by simp
next
  case (Cons t ts)
  have step: "fold (\<lambda>t obj. set_property obj t (f t)) (t # ts) m =
              fold (\<lambda>t obj. set_property obj t (f t)) ts (set_property m t (f t))"
    by simp
  show ?case
  proof (cases "k \<in> set ts")
    case True
    then show ?thesis
      using Cons.IH [OF True Cons.prems(2), of "set_property m t (f t)"] by (simp only: step)
  next
    case False
    with Cons.prems have "k = t" by simp
    then have "set_property m t (f t) k = Some (f k)"
      using Cons.prems(2) by (simp add: set_property_def)
    then show ?thesis
      using fold_upd_other [OF False, of f "set_property m t (f t)"] by (simp only: step)
  qed
qed

text \<open>The row of a year has no property \<open>__proto__\<close>.\<close>

lemma fold_upd_proto:
  "m ''__proto__'' = None \<Longrightarrow>
   fold (\<lambda>t obj. set_property obj t (f t)) ts m ''__proto__'' = None"
  by (induction ts arbitrary: m) (simp_all add: set_property_def)

lemma stackData_proto:
  "j < length (years ds) \<Longrightarrow> (stackData ds ! j) ''__proto__'' = None"
  by (simp add: stackData_def fold_upd_proto)

lemma types_set: "set (types ds) = set (map disaster_type ds)"
  by (simp add: types_def set_js_Set del: set_map)

lemma years_set: "set (years ds) = set (map year ds)"
  by (simp add: years_def set_js_Set del: set_map)

lemma stackData_cell:
  assumes "j < length (years ds)" "t \<in> set (types ds)" "''__proto__'' \<notin> set (types ds)"
  shows "(stackData ds ! j) t = Some (Some (int (count_of ds (years ds ! j) t)))"
proof -
  from assms(2,3) have "t \<noteq> ''__proto__''" by blast
  with assms(1,2) show ?thesis
    by (simp add: stackData_def fold_upd_in crossCount_nested)
qed


lemma map2_same: "map2 f (map g xs) (map h xs) = map (\<lambda>x. f (g x) (h x)) xs"
  by (induction xs) simp_all

lemma lift_band:
  assumes "stackValue d k \<noteq> None"
  shows "lift_point (band_of before k0 d) (Some 0, stackValue d k, d) = band_of (before @ [k0]) k d"
  using assms by (auto simp: lift_point_def band_of_def value_of_def isNaN_def js_add_def)

lemma stackOffsetNone_bands:
  assumes "\<forall>d \<in> set rows. \<forall>k \<in> set ks. stackValue d k \<noteq> None"
  shows "stackOffsetNone (map (band_of before k0) rows) (stackSeries ks rows) =
         stack_bands (before @ [k0]) ks rows"
  using assms
proof (induction ks arbitrary: before k0)
  case Nil
  then show ?case by (simp add: stackSeries_def)
next
  case (Cons k ks)
  have step: "map2 lift_point (map (band_of before k0) rows) (map (\<lambda>d. (Some 0, stackValue d k, d)) rows) =
              map (band_of (before @ [k0]) k) rows"
    unfolding map2_same using Cons.prems by (intro map_cong refl lift_band) simp
  have "stackSeries (k # ks) rows = (k, map (\<lambda>d. (Some 0, stackValue d k, d)) rows) # stackSeries ks rows"
    by (simp add: stackSeries_def)
  then show ?case
    using Cons.IH [of "before @ [k0]" k] Cons.prems by (simp add: step Let_def)
qed

lemma d3_stack_bands:
  assumes "\<forall>d \<in> set rows. \<forall>k \<in> set ks. stackValue d k \<noteq> None"
  shows "d3_stack ks rows = stack_bands [] ks rows"
proof (cases ks)
  case Nil
  then show ?thesis by (simp add: d3_stack_def stackSeries_def)
next
  case (Cons k ks')
  have first: "map (\<lambda>d. (Some 0, stackValue d k, d)) rows = map (band_of [] k) rows"
    using assms Cons by (intro map_cong refl) (auto simp: band_of_def value_of_def)
  have "stackSeries ks rows = (k, map (band_of [] k) rows) # stackSeries ks' rows"
    by (simp add: stackSeries_def Cons first)
  moreover have "stackOffsetNone (map (band_of [] k) rows) (stackSeries ks' rows) = stack_bands ([] @ [k]) ks' rows"
    using assms Cons by (intro stackOffsetNone_bands) simp
  ultimately show ?thesis
    by (simp add: d3_stack_def Cons)
qed

lemma stack_bands_keys: "map fst (stack_bands before ks rows) = ks"
  by (induction ks arbitrary: before) simp_all

lemma stack_bands_nth:
  "i < length ks \<Longrightarrow>
   stack_bands before ks rows ! i = (ks ! i, map (band_of (before @ take i ks) (ks ! i)) rows)"
proof (induction ks arbitrary: before i)
  case Nil
  then show ?case by simp
next
  case (Cons k ks)
  then show ?case by (cases i) simp_all
qed

lemma stack_bands_length: "length (stack_bands before ks rows) = length ks"
  using stack_bands_keys [of before ks rows] by (metis length_map)

lemma stack_bands_last:
  assumes "ks \<noteq> []"
  shows "last (stack_bands before ks rows) =
         (last ks, map (band_of (before @ butlast ks) (last ks)) rows)"
proof -
  have i: "length ks - 1 < length ks"
    using assms by simp
  have "stack_bands before ks rows \<noteq> []"
    using assms stack_bands_length [of before ks rows] by auto
  then have "last (stack_bands before ks rows) = stack_bands before ks rows ! (length ks - 1)"
    by (simp add: last_conv_nth stack_bands_length)
  also have "\<dots> = (ks ! (length ks - 1), map (band_of (before @ take (length ks - 1) ks) (ks ! (length ks - 1))) rows)"
    by (rule stack_bands_nth [OF i])
  finally show ?thesis
    using assms by (simp add: last_conv_nth butlast_conv_take)
qed

lemma sum_list_remove:
  "distinct xs \<Longrightarrow> t \<in> set xs \<Longrightarrow>
   sum_list (map f (filter (\<lambda>u. u \<noteq> t) xs)) = sum_list (map f xs) - (f t :: int)"
proof (induction xs)
  case Nil
  then show ?case by simp
next
  case (Cons x xs)
  show ?case
  proof (cases "x = t")
    case True
    with Cons.prems have "filter (\<lambda>u. u \<noteq> t) xs = xs"
      by (auto simp: filter_id_conv)
    with True show ?thesis by simp
  next
    case False
    with Cons show ?thesis by simp
  qed
qed

lemma distinct_types: "distinct (types ds)"
  by (simp add: types_def distinct_js_Set)

lemma visibleTypes_insert:
  "visibleTypes (insert t hiddenTypes) ds = filter (\<lambda>u. u \<noteq> t) (visibleTypes hiddenTypes ds)"
  by (simp add: visibleTypes_def conj_commute)

lemma stackData_values:
  assumes "''__proto__'' \<notin> set (types ds)"
  shows "\<forall>d \<in> set (stackData ds). \<forall>k \<in> set (visibleTypes hiddenTypes ds). stackValue d k \<noteq> None"
proof (intro ballI)
  fix d k assume "d \<in> set (stackData ds)" "k \<in> set (visibleTypes hiddenTypes ds)"
  then obtain j where "j < length (years ds)" "d = stackData ds ! j" "k \<in> set (types ds)"
    by (auto simp: in_set_conv_nth visibleTypes_def stackData_def)
  then show "stackValue d k \<noteq> None"
    by (simp add: stackValue_def stackData_cell [OF _ _ assms])
qed

lemma series_bands:
  assumes "''__proto__'' \<notin> set (types ds)"
  shows "series hiddenTypes ds = stack_bands [] (visibleTypes hiddenTypes ds) (stackData ds)"
  unfolding series_def by (rule d3_stack_bands [OF stackData_values [OF assms]])

lemma value_of_cell:
  assumes "''__proto__'' \<notin> set (types ds)"
    and "j < length (years ds)" "t \<in> set (visibleTypes hiddenTypes ds)"
  shows "value_of (stackData ds ! j) t = int (count_of ds (years ds ! j) t)"
proof -
  from assms(3) have "t \<in> set (types ds)" by (simp add: visibleTypes_def)
  then show ?thesis
    by (simp add: value_of_def stackValue_def stackData_cell [OF assms(2) _ assms(1)])
qed

lemma length_stackData: "length (stackData ds) = length (years ds)"
  by (simp add: stackData_def)

lemma series_band:
  assumes "''__proto__'' \<notin> set (types ds)"
    and "i < length (visibleTypes hiddenTypes ds)" "j < length (years ds)"
  shows "snd (series hiddenTypes ds ! i) ! j =
         (Some (sum_list (map (\<lambda>t. int (count_of ds (years ds ! j) t)) (take i (visibleTypes hiddenTypes ds)))),
          Some (sum_list (map (\<lambda>t. int (count_of ds (years ds ! j) t)) (take (Suc i) (visibleTypes hiddenTypes ds)))),
          stackData ds ! j)"
proof -
  let ?vis = "visibleTypes hiddenTypes ds"
  have v: "map (value_of (stackData ds ! j)) (take n ?vis) =
           map (\<lambda>t. int (count_of ds (years ds ! j) t)) (take n ?vis)" for n
    by (intro map_cong refl value_of_cell [OF assms(1,3)]) (auto dest: in_set_takeD)
  have "snd (series hiddenTypes ds ! i) ! j = band_of (take i ?vis) (?vis ! i) (stackData ds ! j)"
    using assms(2,3) by (simp add: series_bands [OF assms(1)] stack_bands_nth length_stackData)
  also have "\<dots> = (Some (sum_list (map (value_of (stackData ds ! j)) (take i ?vis))),
                    Some (sum_list (map (value_of (stackData ds ! j)) (take (Suc i) ?vis))),
                    stackData ds ! j)"
    using assms(2) by (simp add: band_of_def take_Suc_conv_app_nth)
  finally show ?thesis
    by (simp only: v)
qed

lemma stack_height_last:
  "layers \<noteq> [] \<Longrightarrow> stack_height layers j = fst (snd (snd (last layers) ! j))"
  by (cases layers) (simp_all add: stack_height_def del: last.simps)

lemma stack_height_series:
  assumes "''__proto__'' \<notin> set (types ds)" and "j < length (years ds)"
  shows "stack_height (series hiddenTypes ds) j = Some (visible_total hiddenTypes ds j)"
proof (cases "visibleTypes hiddenTypes ds = []")
  case True
  then show ?thesis
    by (simp add: stack_height_def series_bands [OF assms(1)] visible_total_def)
next
  case False
  let ?vis = "visibleTypes hiddenTypes ds"
  have v: "map (value_of (stackData ds ! j)) ?vis =
           map (\<lambda>t. int (count_of ds (years ds ! j) t)) ?vis"
    by (intro map_cong refl value_of_cell [OF assms])
  have ne: "stack_bands [] ?vis (stackData ds) \<noteq> []"
    using False stack_bands_length [of "[]" ?vis "stackData ds"] by auto
  have "sum_list (map (value_of (stackData ds ! j)) (butlast ?vis)) + value_of (stackData ds ! j) (last ?vis) =
        sum_list (map (value_of (stackData ds ! j)) (butlast ?vis @ [last ?vis]))"
    by simp
  also have "butlast ?vis @ [last ?vis] = ?vis"
    using False by simp
  finally have "stack_height (series hiddenTypes ds) j = Some (sum_list (map (value_of (stackData ds ! j)) ?vis))"
    using False ne assms(2)
    by (simp add: stack_height_last series_bands [OF assms(1)] stack_bands_last band_of_def
          length_stackData)
  then show ?thesis
    by (simp only: v visible_total_def)
qed

lemma toggle_off:
  assumes "''__proto__'' \<notin> set (types ds)"
    and "t \<in> set (visibleTypes hiddenTypes ds)" "j < length (years ds)"
  shows "stack_height (series (insert t hiddenTypes) ds) j =
         Some (visible_total hiddenTypes ds j - int (count_of ds (years ds ! j) t))"
proof -
  have "distinct (visibleTypes hiddenTypes ds)"
    by (simp add: visibleTypes_def distinct_types)
  then have "visible_total (insert t hiddenTypes) ds j =
             visible_total hiddenTypes ds j - int (count_of ds (years ds ! j) t)"
    unfolding visible_total_def visibleTypes_insert using assms(2) by (rule sum_list_remove)
  then show ?thesis
    by (simp add: stack_height_series [OF assms(1,3)])
qed


lemma crossCount_absent: "crosstab_cell tab yr t = None \<Longrightarrow> crossCount tab yr t = 0"
  by (simp add: crosstab_cell_def crossCount_def split: option.splits)

lemma stackData_absent:
  assumes "''__proto__'' \<notin> set (types ds)"
    and "j < length (years ds)" "t \<in> set (types ds)"
    and "crosstab_cell (nested ds) (years ds ! j) t = None"
  shows "(stackData ds ! j) t = Some (Some 0)"
proof -
  from assms(1,3) have "t \<noteq> ''__proto__''" by blast
  with assms(2,3,4) show ?thesis
    by (simp add: stackData_def fold_upd_in crossCount_absent)
qed

text \<open>
  Claim C6 says that in every year the band of a layer ends at the sum of the counts up
  to its type. The row of a year is a plain object, and the stack builder writes the
  count of a type into the property of the type's name. A record whose disaster type is
  \<open>__proto__\<close> has a count of 1 in its year, but the assignment creates no property
  of this name; the stack reads the prototype there and the band of the type runs from
  \<open>0\<close> to \<open>NaN\<close>.
\<close>

theorem stack_builder_proto:
  "years exampleProto = [Some 2019] \<and> types exampleProto = [''__proto__''] \<and>
   count_of exampleProto (Some 2019) ''__proto__'' = 1 \<and>
   (stackData exampleProto ! 0) ''__proto__'' = None \<and>
   map (\<lambda>(k, points). (k, map (\<lambda>(lo, hi, d). (lo, hi)) points)) (series {} exampleProto) =
     [(''__proto__'', [(Some 0, None)])]"
proof -
  have y: "years exampleProto = [Some 2019]"
    by (simp add: years_def js_Set_def exampleProto_def exampleEvent_def parseRow_def
          exampleRow_def exampleDate_def Let_def)
  have t: "types exampleProto = [''__proto__'']"
    by (simp add: types_def js_Set_def exampleProto_def exampleEvent_def parseRow_def
          exampleRow_def Let_def)
  have c: "count_of exampleProto (Some 2019) ''__proto__'' = 1"
    by (simp add: count_of_def exampleProto_def exampleEvent_def parseRow_def exampleRow_def
          exampleDate_def Let_def)
  have d: "(stackData exampleProto ! 0) ''__proto__'' = None"
    by (simp add: stackData_def y t set_property_def)
  have s: "map (\<lambda>(k, points). (k, map (\<lambda>(lo, hi, d). (lo, hi)) points)) (series {} exampleProto) =
     [(''__proto__'', [(Some 0, None)])]"
    by (simp add: series_def visibleTypes_def d3_stack_def stackSeries_def stackValue_def
          stackData_def y t set_property_def)
  from y t c d s show ?thesis
    by (intro conjI)
qed

text \<open>
  For every record set without a disaster type of the name \<open>__proto__\<close> and every
  set of hidden types, the stack builder fills the table and stacks the counts. The years and the
  types of the table are those of the records, each once, the years in the order of
  their decimal strings and the types in ascending order. The stack table has one row
  per year and in it a cell for every disaster type, holding the number of records of
  that year and type, which is \<open>0\<close> for a pair the cross table does not have. The
  layers are those of the visible types, in the order of the type list, and nothing
  else: a hidden type has no layer. In every year the band of layer \<open>i\<close> runs from
  the sum of the counts of the visible types before \<open>i\<close> to that sum plus its own
  count. The height of the stack in a year is the sum of the visible counts, so hiding
  a visible type lowers the height of every year by that type's count.
\<close>

theorem stack_builder:
  assumes "''__proto__'' \<notin> set (map disaster_type ds)"
  shows
  "set (years ds) = set (map year ds) \<and> distinct (years ds) \<and>
   sorted (map toString (years ds)) \<and>
   set (types ds) = set (map disaster_type ds) \<and> distinct (types ds) \<and> sorted (types ds) \<and>
   length (stackData ds) = length (years ds) \<and>
   (\<forall>j < length (years ds). \<forall>t \<in> set (types ds).
      (stackData ds ! j) t = Some (Some (int (count_of ds (years ds ! j) t))) \<and>
      (crosstab_cell (nested ds) (years ds ! j) t = None \<longrightarrow> (stackData ds ! j) t = Some (Some 0))) \<and>
   visibleTypes hiddenTypes ds = filter (\<lambda>t. t \<notin> hiddenTypes) (types ds) \<and>
   map fst (series hiddenTypes ds) = visibleTypes hiddenTypes ds \<and>
   (\<forall>i < length (visibleTypes hiddenTypes ds). \<forall>j < length (years ds).
      snd (series hiddenTypes ds ! i) ! j =
        (Some (sum_list (map (\<lambda>t. int (count_of ds (years ds ! j) t)) (take i (visibleTypes hiddenTypes ds)))),
         Some (sum_list (map (\<lambda>t. int (count_of ds (years ds ! j) t)) (take (Suc i) (visibleTypes hiddenTypes ds)))),
         stackData ds ! j)) \<and>
   (\<forall>j < length (years ds).
      stack_height (series hiddenTypes ds) j = Some (visible_total hiddenTypes ds j)) \<and>
   (\<forall>t \<in> set (visibleTypes hiddenTypes ds).
      t \<notin> set (map fst (series (insert t hiddenTypes) ds)) \<and>
      (\<forall>j < length (years ds).
         stack_height (series (insert t hiddenTypes) ds) j =
           Some (visible_total hiddenTypes ds j - int (count_of ds (years ds ! j) t))))"
proof -
  from assms have p: "''__proto__'' \<notin> set (types ds)"
    unfolding types_set .
  show ?thesis
  proof (intro conjI allI impI ballI)
    show "set (years ds) = set (map year ds)"
      by (rule years_set)
    show "distinct (years ds)"
      by (simp add: years_def distinct_js_Set)
    show "sorted (map toString (years ds))"
      by (simp add: years_def)
    show "set (types ds) = set (map disaster_type ds)"
      by (rule types_set)
    show "distinct (types ds)"
      by (rule distinct_types)
    show "sorted (types ds)"
      by (simp add: types_def del: sort_key_simps)
    show "length (stackData ds) = length (years ds)"
      by (rule length_stackData)
    show "visibleTypes hiddenTypes ds = filter (\<lambda>t. t \<notin> hiddenTypes) (types ds)"
      by (simp add: visibleTypes_def)
    show "map fst (series hiddenTypes ds) = visibleTypes hiddenTypes ds"
      by (simp add: series_bands [OF p] stack_bands_keys)
  next
    fix j t assume "j < length (years ds)" "t \<in> set (types ds)"
    then show "(stackData ds ! j) t = Some (Some (int (count_of ds (years ds ! j) t)))"
      using p by (rule stackData_cell)
  next
    fix j t
    assume "j < length (years ds)" "t \<in> set (types ds)"
      "crosstab_cell (nested ds) (years ds ! j) t = None"
    with p show "(stackData ds ! j) t = Some (Some 0)"
      by (rule stackData_absent)
  next
    fix i j assume "i < length (visibleTypes hiddenTypes ds)" "j < length (years ds)"
    with p show "snd (series hiddenTypes ds ! i) ! j =
          (Some (sum_list (map (\<lambda>t. int (count_of ds (years ds ! j) t)) (take i (visibleTypes hiddenTypes ds)))),
           Some (sum_list (map (\<lambda>t. int (count_of ds (years ds ! j) t)) (take (Suc i) (visibleTypes hiddenTypes ds)))),
           stackData ds ! j)"
      by (rule series_band)
  next
    fix j assume "j < length (years ds)"
    with p show "stack_height (series hiddenTypes ds) j = Some (visible_total hiddenTypes ds j)"
      by (rule stack_height_series)
  next
    fix t assume "t \<in> set (visibleTypes hiddenTypes ds)"
    show "t \<notin> set (map fst (series (insert t hiddenTypes) ds))"
      by (simp add: series_bands [OF p] stack_bands_keys visibleTypes_def)
  next
    fix t j assume "t \<in> set (visibleTypes hiddenTypes ds)" "j < length (years ds)"
    with p show "stack_height (series (insert t hiddenTypes) ds) j =
             Some (visible_total hiddenTypes ds j - int (count_of ds (years ds ! j) t))"
      by (rule toggle_off)
  qed
qed

lemma exampleFloods_years: "years exampleFloods = [Some 2018, Some 2019, Some 2020]"
  by (simp add: years_def js_Set_def toString_def decimal.simps exampleFloods_def exampleEvent_def
        parseRow_def exampleRow_def exampleDate_def Let_def)

lemma exampleFloods_types: "types exampleFloods = [''Fire'', ''Flood'']"
  by (simp add: types_def js_Set_def exampleFloods_def exampleEvent_def
        parseRow_def exampleRow_def Let_def)


lemma exampleFloods_counts:
  "count_of exampleFloods (Some 2018) ''Fire'' = 1"
  "count_of exampleFloods (Some 2018) ''Flood'' = 0"
  by (simp_all add: count_of_def exampleFloods_def exampleEvent_def
        parseRow_def exampleRow_def exampleDate_def Let_def)

theorem stack_builder_witness:
  "''__proto__'' \<notin> set (map disaster_type exampleFloods) \<and>
   set (types exampleFloods) = {''Fire'', ''Flood''} \<and>
   1 < length (visibleTypes {} exampleFloods) \<and> 0 < length (years exampleFloods) \<and>
   ''Fire'' \<in> set (visibleTypes {} exampleFloods) \<and>
   ''Flood'' \<in> set (types exampleFloods) \<and>
   crosstab_cell (nested exampleFloods) (years exampleFloods ! 0) ''Flood'' = None \<and>
   (stackData exampleFloods ! 0) ''Flood'' = Some (Some 0) \<and>
   fst (snd (series {} exampleFloods ! 1) ! 0) = Some 1 \<and>
   fst (snd (snd (series {} exampleFloods ! 1) ! 0)) = Some 1 \<and>
   stack_height (series {} exampleFloods) 0 = Some 1 \<and>
   stack_height (series {''Fire''} exampleFloods) 0 = Some 0"
proof -
  have v: "visibleTypes {} exampleFloods = [''Fire'', ''Flood'']"
    by (simp add: visibleTypes_def exampleFloods_types)
  have i: "1 < length (visibleTypes {} exampleFloods)"
    by (simp add: v)
  have j: "0 < length (years exampleFloods)"
    by (simp add: exampleFloods_years)
  have m: "''Fire'' \<in> set (visibleTypes {} exampleFloods)"
    by (simp add: v)
  have p: "''__proto__'' \<notin> set (map disaster_type exampleFloods)"
    by (simp add: exampleFloods_def exampleEvent_def parseRow_def exampleRow_def Let_def)
  note S = stack_builder [OF p, of "{}"]
  note T = S [THEN conjunct2, THEN conjunct2, THEN conjunct2, THEN conjunct2, THEN conjunct2,
              THEN conjunct2]
  have q: "set (types exampleFloods) = {''Fire'', ''Flood''}"
    by (simp add: exampleFloods_types insert_commute)
  have "snd (series {} exampleFloods ! 1) ! 0 =
        (Some (sum_list (map (\<lambda>t. int (count_of exampleFloods (years exampleFloods ! 0) t))
                 (take 1 (visibleTypes {} exampleFloods)))),
         Some (sum_list (map (\<lambda>t. int (count_of exampleFloods (years exampleFloods ! 0) t))
                 (take (Suc 1) (visibleTypes {} exampleFloods)))),
         stackData exampleFloods ! 0)"
    using T [THEN conjunct2, THEN conjunct2, THEN conjunct2, THEN conjunct2, THEN conjunct1] i j
    by blast
  then have b: "fst (snd (series {} exampleFloods ! 1) ! 0) = Some 1"
    "fst (snd (snd (series {} exampleFloods ! 1) ! 0)) = Some 1"
    by (simp_all add: v exampleFloods_years exampleFloods_counts)
  have t: "visible_total {} exampleFloods 0 = 1"
    by (simp add: visible_total_def v exampleFloods_years exampleFloods_counts)
  have "stack_height (series {} exampleFloods) 0 = Some (visible_total {} exampleFloods 0)"
    using T [THEN conjunct2, THEN conjunct2, THEN conjunct2, THEN conjunct2, THEN conjunct2,
             THEN conjunct1] j
    by blast
  then have h: "stack_height (series {} exampleFloods) 0 = Some 1"
    by (simp add: t)
  have "stack_height (series (insert ''Fire'' {}) exampleFloods) 0 =
        Some (visible_total {} exampleFloods 0 -
              int (count_of exampleFloods (years exampleFloods ! 0) ''Fire''))"
    using T [THEN conjunct2, THEN conjunct2, THEN conjunct2, THEN conjunct2, THEN conjunct2,
             THEN conjunct2] m j
    by blast
  then have h': "stack_height (series {''Fire''} exampleFloods) 0 = Some 0"
    by (simp add: t exampleFloods_years exampleFloods_counts)
  have f: "''Flood'' \<in> set (types exampleFloods)"
    by (simp add: exampleFloods_types)
  have y0: "years exampleFloods ! 0 = Some 2018"
    by (simp add: exampleFloods_years)
  have "crosstab_cell (nested exampleFloods) (Some 2018) ''Flood'' = None"
    by (simp add: crosstab_cell_def nested_def d3_rollup2_def d3_rollup_def
          d3_group_def exampleFloods_def exampleEvent_def parseRow_def exampleRow_def
          exampleDate_def Let_def)
  then have a: "crosstab_cell (nested exampleFloods) (years exampleFloods ! 0) ''Flood'' = None"
    by (simp only: y0)
  have z: "(stackData exampleFloods ! 0) ''Flood'' = Some (Some 0)"
    using T [THEN conjunct2, THEN conjunct1] j f a by blast
  from p q i j m f a z b h h' show ?thesis
    by (intro conjI)
qed

end
